theory Spec2Isabelle
  imports
    Complex_Main
    "HOL-Library.AList"
    "HOL-Library.Multiset"
    "HOL-Library.Char_ord"
    "HOL-Library.List_Lexorder"
begin

section \<open>Data model: cell values, records and data frames\<close>

text \<open>
  \<^verbatim>\<open>app.py\<close> keeps the player pool in a pandas data frame and hands each cohort to
  \<^verbatim>\<open>solve_cohort_v2\<close>, which turns the frame into a list of Python dicts
  (\<^verbatim>\<open>df_cohort.to_dict('records')\<close>). A cell is a string, an integer, a boolean, a
  date or the missing value NaN. A dict is an association list in insertion order.
\<close>

datatype pyval = PStr string | PInt int | PBool bool | PDate int int int | PNaN

type_synonym pyrec = "(string \<times> pyval) list"

record dataframe =
  columns :: "string list"
  rows :: "pyval list list"

datatype py_error = KeyError string | TypeError | StreamlitAPIException

text \<open>
  Python's \<^verbatim>\<open>==\<close> on cell values: a boolean is the integer 0 or 1, NaN is equal to
  nothing (not even to itself), values of unrelated types are unequal.
\<close>

fun py_eq :: "pyval \<Rightarrow> pyval \<Rightarrow> bool" where
  "py_eq (PStr a) (PStr b) = (a = b)"
| "py_eq (PInt a) (PInt b) = (a = b)"
| "py_eq (PInt a) (PBool b) = (a = (if b then 1 else 0))"
| "py_eq (PBool a) (PInt b) = ((if a then 1 else 0) = b)"
| "py_eq (PBool a) (PBool b) = (a = b)"
| "py_eq (PDate y m d) (PDate y' m' d') = (y = y' \<and> m = m' \<and> d = d')"
| "py_eq _ _ = False"

text \<open>\<^verbatim>\<open>dict(zip(columns, row))\<close>: a later duplicate key overwrites the value.\<close>

definition py_dict :: "(string \<times> pyval) list \<Rightarrow> pyrec" where
  "py_dict kvs = foldl (\<lambda>d kv. AList.update (fst kv) (snd kv) d) [] kvs"

definition to_dict_records :: "dataframe \<Rightarrow> pyrec list" where
  "to_dict_records df = map (\<lambda>r. py_dict (zip (columns df) r)) (rows df)"

text \<open>\<^verbatim>\<open>p[key]\<close> raises KeyError when the key is missing.\<close>

definition getitem :: "pyrec \<Rightarrow> string \<Rightarrow> py_error + pyval" where
  "getitem p key = (case map_of p key of None \<Rightarrow> Inl (KeyError key) | Some v \<Rightarrow> Inr v)"

fun getitems :: "pyrec list \<Rightarrow> string \<Rightarrow> py_error + pyval list" where
  "getitems [] key = Inr []"
| "getitems (p # ps) key =
     (case getitem p key of
        Inl e \<Rightarrow> Inl e
      | Inr v \<Rightarrow> (case getitems ps key of Inl e \<Rightarrow> Inl e | Inr vs \<Rightarrow> Inr (v # vs)))"

section \<open>The constraint model handed to the CP-SAT solver\<close>

text \<open>
  The solver is the external library OR-tools. What \<^verbatim>\<open>solve_cohort_v2\<close> builds is
  data: Boolean variables \<^verbatim>\<open>x[p, t]\<close>, the integer variable \<^verbatim>\<open>diff\<close>, linear
  constraints and one absolute-value constraint.
\<close>

datatype cpvar = X nat nat | Diff

type_synonym linexpr = "(int \<times> cpvar) list"

datatype cpconstraint =
    Eq linexpr int
  | Ge linexpr int
  | Le linexpr int
  | AbsEquality cpvar linexpr

record cp_model =
  variables :: "(cpvar \<times> int \<times> int) list"
  constraints :: "cpconstraint list"
  minimize :: "cpvar"

datatype cp_status = UNKNOWN | MODEL_INVALID | FEASIBLE | INFEASIBLE | OPTIMAL

type_synonym cp_values = "cpvar \<Rightarrow> int"

type_synonym cp_solver = "cp_model \<Rightarrow> cp_status \<times> cp_values"

definition eval_lin :: "cp_values \<Rightarrow> linexpr \<Rightarrow> int" where
  "eval_lin val e = sum_list (map (\<lambda>cx. fst cx * val (snd cx)) e)"

fun holds :: "cp_values \<Rightarrow> cpconstraint \<Rightarrow> bool" where
  "holds val (Eq e k) = (eval_lin val e = k)"
| "holds val (Ge e k) = (eval_lin val e \<ge> k)"
| "holds val (Le e k) = (eval_lin val e \<le> k)"
| "holds val (AbsEquality y e) = (val y = \<bar>eval_lin val e\<bar>)"

definition in_domain :: "cp_values \<Rightarrow> cpvar \<times> int \<times> int \<Rightarrow> bool" where
  "in_domain val d = (fst (snd d) \<le> val (fst d) \<and> val (fst d) \<le> snd (snd d))"

definition satisfies :: "cp_model \<Rightarrow> cp_values \<Rightarrow> bool" where
  "satisfies m val = (list_all (in_domain val) (variables m) \<and> list_all (holds val) (constraints m))"

text \<open>
  The contract of \<^verbatim>\<open>CpSolver.Solve\<close> that the program relies on: when the status is
  OPTIMAL or FEASIBLE, \<^verbatim>\<open>solver.Value\<close> reads a solution of the model.
\<close>

definition solver_sound :: "cp_solver \<Rightarrow> bool" where
  "solver_sound solver =
     (\<forall>m. (fst (solver m) = OPTIMAL \<or> fst (solver m) = FEASIBLE) \<longrightarrow> satisfies m (snd (solver m)))"

section \<open>\<^verbatim>\<open>solve_cohort_v2\<close>\<close>

definition num_teams :: nat where
  "num_teams = 2"

text \<open>
  \<^verbatim>\<open>players[p]['skill_score'] * x[p, t]\<close>: the coefficient has to be an integer
  (a Python bool is one); any other cell value makes the product raise.
\<close>

fun skill_coeff :: "pyval \<Rightarrow> py_error + int" where
  "skill_coeff (PInt i) = Inr i"
| "skill_coeff (PBool b) = Inr (if b then 1 else 0)"
| "skill_coeff _ = Inl TypeError"

fun skill_coeffs :: "pyval list \<Rightarrow> py_error + int list" where
  "skill_coeffs [] = Inr []"
| "skill_coeffs (v # vs) =
     (case skill_coeff v of
        Inl e \<Rightarrow> Inl e
      | Inr i \<Rightarrow> (case skill_coeffs vs of Inl e \<Rightarrow> Inl e | Inr is \<Rightarrow> Inr (i # is)))"

text \<open>The variables: \<^verbatim>\<open>x[p, t] = model.NewBoolVar(...)\<close> for every player and team.\<close>

definition bool_vars :: "nat \<Rightarrow> (cpvar \<times> int \<times> int) list" where
  "bool_vars num_players =
     concat (map (\<lambda>p. map (\<lambda>t. (X p t, 0, 1)) [0..<num_teams]) [0..<num_players])"

text \<open>\<^verbatim>\<open>sum(x[p, t] for p in ps)\<close> and \<^verbatim>\<open>sum(x[p, t] for t in all_teams)\<close>.\<close>

definition sum_over_players :: "nat list \<Rightarrow> nat \<Rightarrow> linexpr" where
  "sum_over_players ps t = map (\<lambda>p. (1, X p t)) ps"

definition sum_over_teams :: "nat \<Rightarrow> linexpr" where
  "sum_over_teams p = map (\<lambda>t. (1, X p t)) [0..<num_teams]"

text \<open>1. One team per player.\<close>

definition one_team_constraints :: "nat \<Rightarrow> cpconstraint list" where
  "one_team_constraints num_players = map (\<lambda>p. Eq (sum_over_teams p) 1) [0..<num_players]"

text \<open>2. Equal size: \<^verbatim>\<open>target = num_players // num_teams\<close>.\<close>

definition equal_size_constraints :: "nat \<Rightarrow> cpconstraint list" where
  "equal_size_constraints num_players =
     (let target = int (num_players div num_teams) in
      concat (map (\<lambda>t. [Ge (sum_over_players [0..<num_players] t) target,
                         Le (sum_over_players [0..<num_players] t) (target + 1)])
                  [0..<num_teams]))"

text \<open>
  3. Position loop. \<^verbatim>\<open>set(p['position'] for p in players)\<close> keeps one value of each
  class of equal values; the order in which a set is iterated is not fixed, and the
  model lists the values in order of first occurrence.
\<close>

fun unique_values :: "pyval list \<Rightarrow> pyval list" where
  "unique_values [] = []"
| "unique_values (v # vs) = v # filter (\<lambda>w. \<not> py_eq w v) (unique_values vs)"

definition pos_indices :: "pyval list \<Rightarrow> pyval \<Rightarrow> nat list" where
  "pos_indices positions pos = filter (\<lambda>i. py_eq (positions ! i) pos) [0..<length positions]"

text \<open>\<^verbatim>\<open>math.ceil(count / num_teams)\<close>: true division, then the ceiling.\<close>

definition max_per_team :: "nat \<Rightarrow> int" where
  "max_per_team cnt = \<lceil>real cnt / real num_teams\<rceil>"

definition position_constraints :: "pyval list \<Rightarrow> cpconstraint list" where
  "position_constraints positions =
     concat (map (\<lambda>pos.
        (let idx = pos_indices positions pos;
             cnt = length idx;
             min_per_team = int (cnt div num_teams)
         in concat (map (\<lambda>t. [Ge (sum_over_players idx t) min_per_team,
                               Le (sum_over_players idx t) (max_per_team cnt)])
                        [0..<num_teams])))
        (unique_values positions))"

text \<open>
  Objective: \<^verbatim>\<open>t_scores[t] = sum(skill * x[p, t])\<close>,
  \<^verbatim>\<open>diff = model.NewIntVar(0, 100000, 'diff')\<close>,
  \<^verbatim>\<open>model.AddAbsEquality(diff, t_scores[0] - t_scores[1])\<close>.
\<close>

definition t_score :: "int list \<Rightarrow> nat \<Rightarrow> linexpr" where
  "t_score skills t = map (\<lambda>p. (skills ! p, X p t)) [0..<length skills]"

definition lin_minus :: "linexpr \<Rightarrow> linexpr \<Rightarrow> linexpr" where
  "lin_minus a b = a @ map (\<lambda>cx. (- fst cx, snd cx)) b"

definition diff_var :: "cpvar \<times> int \<times> int" where
  "diff_var = (Diff, 0, 100000)"

definition make_model :: "pyval list \<Rightarrow> int list \<Rightarrow> cp_model" where
  "make_model positions skills =
     \<lparr> variables = bool_vars (length positions) @ [diff_var],
       constraints =
         one_team_constraints (length positions) @
         equal_size_constraints (length positions) @
         position_constraints positions @
         [AbsEquality Diff (lin_minus (t_score skills 0) (t_score skills 1))],
       minimize = Diff \<rparr>"

text \<open>
  Building the model reads \<^verbatim>\<open>p['position']\<close> of every player first and
  \<^verbatim>\<open>players[p]['skill_score']\<close> afterwards, so a missing position column is the
  error that is raised when both are missing.
\<close>

definition build_model :: "pyrec list \<Rightarrow> py_error + cp_model" where
  "build_model players =
     (case getitems players ''position'' of
        Inl e \<Rightarrow> Inl e
      | Inr positions \<Rightarrow>
          (case getitems players ''skill_score'' of
             Inl e \<Rightarrow> Inl e
           | Inr cells \<Rightarrow>
               (case skill_coeffs cells of
                  Inl e \<Rightarrow> Inl e
                | Inr skills \<Rightarrow> Inr (make_model positions skills))))"

text \<open>The label \<^verbatim>\<open>f"{cohort_name}_Team_{t+1}"\<close>.\<close>

fun str_nat :: "nat \<Rightarrow> string" where
  "str_nat n =
     (if n < 10 then [char_of (48 + n)] else str_nat (n div 10) @ [char_of (48 + n mod 10)])"

declare str_nat.simps [simp del]

definition team_label :: "string \<Rightarrow> nat \<Rightarrow> string" where
  "team_label cohort_name t = cohort_name @ ''_Team_'' @ str_nat (t + 1)"

text \<open>
  Reading the solution off. \<^verbatim>\<open>player_data = players[p]\<close> is a reference to the dict
  in \<^verbatim>\<open>players\<close>: setting \<^verbatim>\<open>Assigned_Team\<close> changes that dict, and a roster holds
  references. The model keeps the dicts in a store (the list \<^verbatim>\<open>players\<close>) and the
  rosters as lists of indices into it; the returned rosters are read from the final
  store.
\<close>

type_synonym extract_state = "pyrec list \<times> nat list list"

definition extract_step :: "cp_values \<Rightarrow> string \<Rightarrow> extract_state \<Rightarrow> nat \<times> nat \<Rightarrow> extract_state" where
  "extract_step val cohort_name s pt =
     (let players = fst s; rosters = snd s; p = fst pt; t = snd pt in
      if val (X p t) = 1
      then (players[p := AList.update ''Assigned_Team'' (PStr (team_label cohort_name t)) (players ! p)],
            rosters[t := rosters ! t @ [p]])
      else s)"

definition extract_rosters :: "cp_values \<Rightarrow> string \<Rightarrow> pyrec list \<Rightarrow> pyrec list list" where
  "extract_rosters val cohort_name players =
     (let s = foldl (extract_step val cohort_name) (players, [[], []])
                (List.product [0..<length players] [0..<num_teams])
      in map (map (\<lambda>p. fst s ! p)) (snd s))"

text \<open>
  The result is \<^verbatim>\<open>(rosters, solver.Value(diff))\<close> or \<^verbatim>\<open>(None, None)\<close>; the latter
  is \<open>None\<close> here. \<open>rosters ! t\<close> is \<^verbatim>\<open>rosters[t]\<close>.
\<close>

definition solve_cohort_v2 ::
  "cp_solver \<Rightarrow> string \<Rightarrow> dataframe \<Rightarrow> py_error + (pyrec list list \<times> int) option" where
  "solve_cohort_v2 solver cohort_name df_cohort =
     (let players = to_dict_records df_cohort in
      case build_model players of
        Inl e \<Rightarrow> Inl e
      | Inr model \<Rightarrow>
          (let status = fst (solver model); val = snd (solver model) in
           if status = OPTIMAL \<or> status = FEASIBLE
           then Inr (Some (extract_rosters val cohort_name players, val Diff))
           else Inr None))"

section \<open>The ghost injection of \<^verbatim>\<open>clean_and_score_data\<close>\<close>

text \<open>
  What the user interface shows: \<^verbatim>\<open>st.warning\<close> of the ghost injection,
  \<^verbatim>\<open>st.success\<close> with the skill difference, \<^verbatim>\<open>st.error\<close> for a cohort without
  solution.
\<close>

datatype st_message = GhostWarning | Optimized int | NoFeasibleSolution

text \<open>
  \<^verbatim>\<open>df[key] == v\<close> for one row: the cell of the row in column \<open>key\<close> compared
  with \<open>v\<close>.
\<close>

definition cell_is :: "dataframe \<Rightarrow> string \<Rightarrow> pyval \<Rightarrow> pyval list \<Rightarrow> bool" where
  "cell_is df key v r =
     (case map_of (py_dict (zip (columns df) r)) key of None \<Rightarrow> False | Some c \<Rightarrow> py_eq c v)"

text \<open>
  \<^verbatim>\<open>pd.concat([df, pd.DataFrame([rec])], ignore_index=True)\<close>: the columns are those
  of \<open>df\<close> followed by the new keys of \<open>rec\<close>; a cell that one side does not have
  is NaN.
\<close>

definition rec_cell :: "pyrec \<Rightarrow> string \<Rightarrow> pyval" where
  "rec_cell rec key = (case map_of rec key of None \<Rightarrow> PNaN | Some v \<Rightarrow> v)"

definition pd_concat_row :: "dataframe \<Rightarrow> pyrec \<Rightarrow> dataframe" where
  "pd_concat_row df rec =
     (let new_columns = filter (\<lambda>k. k \<notin> set (columns df)) (map fst rec);
          all_columns = columns df @ new_columns
      in \<lparr> columns = all_columns,
           rows = map (\<lambda>r. r @ replicate (length new_columns) PNaN) (rows df)
                  @ [map (rec_cell rec) all_columns] \<rparr>)"

definition ghost :: pyrec where
  "ghost =
     [(''name'', PStr ''GHOST_GK_PLACEHOLDER''),
      (''dob'', PDate 2010 1 1),
      (''birth_year'', PInt 2010),
      (''position'', PStr ''GK''), (''position_2'', PStr ''None''),
      (''years_exp'', PInt 3), (''history_text'', PStr ''Generated''),
      (''skill_score'', PInt 50),
      (''category'', PStr ''Group_2010_Plus''), (''age'', PInt 14)]"

text \<open>
  \<^verbatim>\<open>gks_2010 = df[(df['category'] == 'Group_2010_Plus') & (df['position'] == 'GK')]\<close>
\<close>

definition gks_2010 :: "dataframe \<Rightarrow> pyval list list" where
  "gks_2010 df =
     filter (\<lambda>r. cell_is df ''category'' (PStr ''Group_2010_Plus'') r
                \<and> cell_is df ''position'' (PStr ''GK'') r) (rows df)"

text \<open>
  The last step of \<^verbatim>\<open>clean_and_score_data\<close>, on the frame as it is after scoring.
  The result is the list of messages shown and the frame returned. Reading a column
  that the frame does not have raises KeyError.
\<close>

definition ghost_injection :: "dataframe \<Rightarrow> py_error + (st_message list \<times> dataframe)" where
  "ghost_injection df =
     (if ''category'' \<notin> set (columns df) then Inl (KeyError ''category'')
      else if ''position'' \<notin> set (columns df) then Inl (KeyError ''position'')
      else if length (gks_2010 df) = 1
           then Inr ([GhostWarning], pd_concat_row df ghost)
           else Inr ([], df))"

section \<open>The cohort loop of the user interface\<close>

text \<open>\<^verbatim>\<open>cohort_data = df[df['category'] == cohort].copy()\<close>\<close>

definition cohort_data :: "dataframe \<Rightarrow> string \<Rightarrow> dataframe" where
  "cohort_data df cohort = df\<lparr> rows := filter (cell_is df ''category'' (PStr cohort)) (rows df) \<rparr>"

text \<open>
  \<^verbatim>\<open>cohorts = sorted(df['category'].unique())\<close> and \<^verbatim>\<open>tabs = st.tabs(cohorts)\<close>.
  \<^verbatim>\<open>clean_and_score_data\<close> writes one of three strings into every cell of the column.
  A cell that is not a string makes \<^verbatim>\<open>sorted\<close> or \<^verbatim>\<open>st.tabs\<close> raise (the model
  reports TypeError for both), and \<^verbatim>\<open>st.tabs\<close> raises on an empty list of labels.
\<close>

fun cell_str :: "pyval \<Rightarrow> string option" where
  "cell_str (PStr s) = Some s"
| "cell_str _ = None"

definition category_cells :: "dataframe \<Rightarrow> pyval list" where
  "category_cells df = map (\<lambda>r. rec_cell (py_dict (zip (columns df) r)) ''category'') (rows df)"

definition cohort_names :: "dataframe \<Rightarrow> py_error + string list" where
  "cohort_names df =
     (if ''category'' \<notin> set (columns df) then Inl (KeyError ''category'')
      else if \<not> list_all (\<lambda>c. cell_str c \<noteq> None) (category_cells df) then Inl TypeError
      else (let cohorts = sort (remdups (List.map_filter cell_str (category_cells df)))
            in if cohorts = [] then Inl StreamlitAPIException else Inr cohorts))"

text \<open>
  The loop over the cohorts. The state is \<^verbatim>\<open>final_roster\<close> and the messages shown,
  one per cohort. \<^verbatim>\<open>if result:\<close> holds for every returned dict of rosters, since the
  dict has two keys. An exception of \<^verbatim>\<open>solve_cohort_v2\<close> ends the run. The drawing of
  the charts and of the table of a solved cohort is presentation and is left out.
\<close>

type_synonym run_state = "pyrec list \<times> (string \<times> st_message) list"

fun cohort_loop :: "cp_solver \<Rightarrow> dataframe \<Rightarrow> string list \<Rightarrow> run_state \<Rightarrow> py_error + run_state" where
  "cohort_loop solver df [] s = Inr s"
| "cohort_loop solver df (cohort # cohorts) s =
     (case solve_cohort_v2 solver cohort (cohort_data df cohort) of
        Inl e \<Rightarrow> Inl e
      | Inr None \<Rightarrow>
          cohort_loop solver df cohorts (fst s, snd s @ [(cohort, NoFeasibleSolution)])
      | Inr (Some res) \<Rightarrow>
          cohort_loop solver df cohorts
            (fst s @ concat (fst res), snd s @ [(cohort, Optimized (snd res))]))"

definition optimize_teams :: "cp_solver \<Rightarrow> dataframe \<Rightarrow> py_error + run_state" where
  "optimize_teams solver df =
     (case cohort_names df of
        Inl e \<Rightarrow> Inl e
      | Inr cohorts \<Rightarrow> cohort_loop solver df cohorts ([], []))"

section \<open>Notions used to state the properties\<close>

text \<open>
  What the extraction loop does to one dict: it sets \<^verbatim>\<open>Assigned_Team\<close> once for
  every team whose variable reads 1, team 0 before team 1.
\<close>

definition set_team :: "string \<Rightarrow> nat \<Rightarrow> pyrec \<Rightarrow> pyrec" where
  "set_team cohort_name t r = AList.update ''Assigned_Team'' (PStr (team_label cohort_name t)) r"

definition tag_player :: "cp_values \<Rightarrow> string \<Rightarrow> nat \<Rightarrow> pyrec \<Rightarrow> pyrec" where
  "tag_player val cohort_name p r =
     (let r0 = (if val (X p 0) = 1 then set_team cohort_name 0 r else r)
      in if val (X p 1) = 1 then set_team cohort_name 1 r0 else r0)"

text \<open>The players of \<open>ps\<close> whose variable for team \<open>t\<close> reads 1.\<close>

definition assigned :: "cp_values \<Rightarrow> nat \<Rightarrow> nat list \<Rightarrow> nat list" where
  "assigned val t ps = filter (\<lambda>p. val (X p t) = 1) ps"

text \<open>The state of the extraction loop after the first \<open>k\<close> players.\<close>

definition extract_upto :: "cp_values \<Rightarrow> string \<Rightarrow> pyrec list \<Rightarrow> nat \<Rightarrow> extract_state" where
  "extract_upto val cohort_name players k =
     foldl (extract_step val cohort_name) (players, [[], []])
       (List.product [0..<k] [0..<num_teams])"

text \<open>
  Measurements on a returned roster, made from the roster alone: how many of its
  records have a position (compared as Python compares), and the sum of their skill
  scores.
\<close>

definition has_position :: "pyval \<Rightarrow> pyrec \<Rightarrow> bool" where
  "has_position pos r = (case map_of r ''position'' of None \<Rightarrow> False | Some v \<Rightarrow> py_eq v pos)"

definition position_count :: "pyrec list \<Rightarrow> pyval \<Rightarrow> nat" where
  "position_count rs pos = length (filter (has_position pos) rs)"

definition skill_of :: "pyrec \<Rightarrow> int" where
  "skill_of r = (case map_of r ''skill_score'' of
                   Some (PInt i) \<Rightarrow> i
                 | Some (PBool b) \<Rightarrow> (if b then 1 else 0)
                 | _ \<Rightarrow> 0)"

definition roster_skill :: "pyrec list \<Rightarrow> int" where
  "roster_skill rs = sum_list (map skill_of rs)"

text \<open>The skill scores of a cohort, as the objective reads them.\<close>

definition cohort_skills :: "dataframe \<Rightarrow> int list" where
  "cohort_skills df = map skill_of (to_dict_records df)"

text \<open>The number of goalkeepers of a cohort, for stating the policy.\<close>

definition gk_count :: "dataframe \<Rightarrow> string \<Rightarrow> nat" where
  "gk_count df cohort =
     length (filter (\<lambda>r. cell_is df ''category'' (PStr cohort) r
                        \<and> cell_is df ''position'' (PStr ''GK'') r) (rows df))"

text \<open>The skill scores of the goalkeepers of a cohort.\<close>

definition gk_skills :: "dataframe \<Rightarrow> string \<Rightarrow> int list" where
  "gk_skills df cohort =
     map skill_of (to_dict_records
       (df\<lparr> rows := filter (\<lambda>r. cell_is df ''category'' (PStr cohort) r
                                \<and> cell_is df ''position'' (PStr ''GK'') r) (rows df) \<rparr>))"

text \<open>The frame without the rows of one cohort.\<close>

definition without_cohort :: "dataframe \<Rightarrow> string \<Rightarrow> dataframe" where
  "without_cohort df cohort =
     df\<lparr> rows := filter (\<lambda>r. \<not> cell_is df ''category'' (PStr cohort) r) (rows df) \<rparr>"

text \<open>The messages of a run that are not about one cohort.\<close>

definition messages_without :: "string \<Rightarrow> (string \<times> st_message) list \<Rightarrow> (string \<times> st_message) list" where
  "messages_without cohort ms = filter (\<lambda>m. fst m \<noteq> cohort) ms"

text \<open>The message that the loop shows for a cohort.\<close>

definition cohort_message :: "cp_solver \<Rightarrow> dataframe \<Rightarrow> string \<Rightarrow> st_message" where
  "cohort_message solver df cohort =
     (case solve_cohort_v2 solver cohort (cohort_data df cohort) of
        Inr (Some res) \<Rightarrow> Optimized (snd res)
      | _ \<Rightarrow> NoFeasibleSolution)"

section \<open>Concrete inputs\<close>

text \<open>
  A solver that only checks one candidate valuation; it is sound by construction and
  serves to run the program on concrete inputs.
\<close>

definition check_solver :: "cp_values \<Rightarrow> cp_solver" where
  "check_solver val m = (if satisfies m val then (FEASIBLE, val) else (INFEASIBLE, val))"

text \<open>Three players, two goalkeepers and a defender, and a split of them.\<close>

definition df3 :: dataframe where
  "df3 = \<lparr> columns = [''name'', ''position'', ''skill_score''],
           rows = [[PStr ''a'', PStr ''GK'', PInt 30],
                   [PStr ''b'', PStr ''GK'', PInt 50],
                   [PStr ''c'', PStr ''DEF'', PInt 25]] \<rparr>"

fun v3 :: cp_values where
  "v3 (X p t) = (if (p = 0 \<and> t = 0) \<or> (p = 1 \<and> t = 1) \<or> (p = 2 \<and> t = 0) then 1 else 0)"
| "v3 Diff = 5"

definition rosters3 :: "pyrec list list" where
  "rosters3 =
     [[[(''name'', PStr ''a''), (''position'', PStr ''GK''), (''skill_score'', PInt 30),
        (''Assigned_Team'', PStr ''G_Team_1'')],
       [(''name'', PStr ''c''), (''position'', PStr ''DEF''), (''skill_score'', PInt 25),
        (''Assigned_Team'', PStr ''G_Team_1'')]],
      [[(''name'', PStr ''b''), (''position'', PStr ''GK''), (''skill_score'', PInt 50),
        (''Assigned_Team'', PStr ''G_Team_2'')]]]"

text \<open>One player, and the assignment of the player to team 0.\<close>

definition df1 :: dataframe where
  "df1 = \<lparr> columns = [''name'', ''position'', ''skill_score''],
           rows = [[PStr ''solo'', PStr ''MID'', PInt 40]] \<rparr>"

fun v1 :: cp_values where
  "v1 (X p t) = (if p = 0 \<and> t = 0 then 1 else 0)"
| "v1 Diff = 40"

definition rosters1 :: "pyrec list list" where
  "rosters1 =
     [[[(''name'', PStr ''solo''), (''position'', PStr ''MID''), (''skill_score'', PInt 40),
        (''Assigned_Team'', PStr ''G_Team_1'')]],
      []]"

text \<open>Two solvers that find nothing: one reports infeasibility, one an invalid model.\<close>

definition zero_values :: cp_values where
  "zero_values x = 0"

definition infeasible_solver :: cp_solver where
  "infeasible_solver m = (INFEASIBLE, zero_values)"

definition invalid_solver :: cp_solver where
  "invalid_solver m = (MODEL_INVALID, zero_values)"

text \<open>
  One player whose skill score is 100001, the model of that cohort, and the assignment
  of the player to team 0 with the differential it has.
\<close>

definition df_big :: dataframe where
  "df_big = \<lparr> columns = [''name'', ''position'', ''skill_score''],
              rows = [[PStr ''veteran'', PStr ''MID'', PInt 100001]] \<rparr>"

definition model_big :: cp_model where
  "model_big = make_model [PStr ''MID''] [100001]"

fun v_big :: cp_values where
  "v_big (X p t) = (if p = 0 \<and> t = 0 then 1 else 0)"
| "v_big Diff = 100001"

text \<open>A frame whose only goalkeeper is in the cohort of 2008 and 2009.\<close>

definition df_2008 :: dataframe where
  "df_2008 = \<lparr> columns = [''name'', ''position'', ''skill_score'', ''category''],
               rows = [[PStr ''a'', PStr ''GK'', PInt 70, PStr ''Group_2008_2009''],
                       [PStr ''b'', PStr ''DEF'', PInt 30, PStr ''Group_2008_2009'']] \<rparr>"

text \<open>
  A frame whose cohort of 2010 has one goalkeeper, of skill 70, and one defender; the
  frame after the injection; a split of the three players of the cohort.
\<close>

definition df_2010 :: dataframe where
  "df_2010 = \<lparr> columns = [''name'', ''position'', ''skill_score'', ''category''],
               rows = [[PStr ''a'', PStr ''GK'', PInt 70, PStr ''Group_2010_Plus''],
                       [PStr ''b'', PStr ''DEF'', PInt 30, PStr ''Group_2010_Plus'']] \<rparr>"

fun v_2010 :: cp_values where
  "v_2010 (X p t) = (if (p = 0 \<and> t = 0) \<or> (p = 1 \<and> t = 1) \<or> (p = 2 \<and> t = 1) then 1 else 0)"
| "v_2010 Diff = 10"

definition df_2010_ghost :: dataframe where
  "df_2010_ghost =
     \<lparr> columns = [''name'', ''position'', ''skill_score'', ''category'', ''dob'',
                  ''birth_year'', ''position_2'', ''years_exp'', ''history_text'', ''age''],
       rows = [[PStr ''a'', PStr ''GK'', PInt 70, PStr ''Group_2010_Plus'',
                PNaN, PNaN, PNaN, PNaN, PNaN, PNaN],
               [PStr ''b'', PStr ''DEF'', PInt 30, PStr ''Group_2010_Plus'',
                PNaN, PNaN, PNaN, PNaN, PNaN, PNaN],
               [PStr ''GHOST_GK_PLACEHOLDER'', PStr ''GK'', PInt 50, PStr ''Group_2010_Plus'',
                PDate 2010 1 1, PInt 2010, PStr ''None'', PInt 3, PStr ''Generated'', PInt 14]] \<rparr>"

definition rosters_2010 :: "pyrec list list" where
  "rosters_2010 =
     [[[(''name'', PStr ''a''), (''position'', PStr ''GK''), (''skill_score'', PInt 70),
        (''category'', PStr ''Group_2010_Plus''), (''dob'', PNaN), (''birth_year'', PNaN),
        (''position_2'', PNaN), (''years_exp'', PNaN), (''history_text'', PNaN), (''age'', PNaN),
        (''Assigned_Team'', PStr ''Group_2010_Plus_Team_1'')]],
      [[(''name'', PStr ''b''), (''position'', PStr ''DEF''), (''skill_score'', PInt 30),
        (''category'', PStr ''Group_2010_Plus''), (''dob'', PNaN), (''birth_year'', PNaN),
        (''position_2'', PNaN), (''years_exp'', PNaN), (''history_text'', PNaN), (''age'', PNaN),
        (''Assigned_Team'', PStr ''Group_2010_Plus_Team_2'')],
       [(''name'', PStr ''GHOST_GK_PLACEHOLDER''), (''position'', PStr ''GK''),
        (''skill_score'', PInt 50), (''category'', PStr ''Group_2010_Plus''),
        (''dob'', PDate 2010 1 1), (''birth_year'', PInt 2010), (''position_2'', PStr ''None''),
        (''years_exp'', PInt 3), (''history_text'', PStr ''Generated''), (''age'', PInt 14),
        (''Assigned_Team'', PStr ''Group_2010_Plus_Team_2'')]]]"

text \<open>
  Two cohorts: \<^verbatim>\<open>Group_2008_2009\<close> holds one player of skill 100001 and has no
  solution, \<^verbatim>\<open>Group_2010_Plus\<close> holds one player of skill 40.
\<close>

definition df_two :: dataframe where
  "df_two = \<lparr> columns = [''name'', ''position'', ''skill_score'', ''category''],
              rows = [[PStr ''veteran'', PStr ''MID'', PInt 100001, PStr ''Group_2008_2009''],
                      [PStr ''solo'', PStr ''MID'', PInt 40, PStr ''Group_2010_Plus'']] \<rparr>"

definition roster_two :: "pyrec list" where
  "roster_two =
     [[(''name'', PStr ''solo''), (''position'', PStr ''MID''), (''skill_score'', PInt 40),
       (''category'', PStr ''Group_2010_Plus''),
       (''Assigned_Team'', PStr ''Group_2010_Plus_Team_1'')]]"

section \<open>What a solution of the model satisfies\<close>

lemma upt_teams: "[0..<num_teams] = [0, 1]"
  by (simp add: num_teams_def numeral_2_eq_2)

lemma in_concat_mapI: "x \<in> set xs \<Longrightarrow> c \<in> set (f x) \<Longrightarrow> c \<in> set (concat (map f xs))"
  by auto

lemma sat_constraint:
  assumes "satisfies m val" "c \<in> set (constraints m)"
  shows "holds val c"
  using assms by (simp add: satisfies_def list_all_iff)

lemma bool_vars_mem: "p < n \<Longrightarrow> t < num_teams \<Longrightarrow> (X p t, 0, 1) \<in> set (bool_vars n)"
  unfolding bool_vars_def by (rule in_concat_mapI[of p]) simp_all

lemma sat_bool:
  assumes "satisfies (make_model positions skills) val" "p < length positions" "t < num_teams"
  shows "val (X p t) = 0 \<or> val (X p t) = 1"
proof -
  have "(X p t, 0, 1) \<in> set (variables (make_model positions skills))"
    using bool_vars_mem[OF assms(2,3)] by (simp add: make_model_def)
  with assms(1) have "in_domain val (X p t, 0, 1)"
    by (simp add: satisfies_def list_all_iff)
  then show ?thesis by (auto simp: in_domain_def)
qed

lemma sat_one_team:
  assumes "satisfies (make_model positions skills) val" "p < length positions"
  shows "val (X p 0) + val (X p 1) = 1"
proof -
  have "Eq (sum_over_teams p) 1 \<in> set (constraints (make_model positions skills))"
    using assms(2) by (simp add: make_model_def one_team_constraints_def)
  from sat_constraint[OF assms(1) this] show ?thesis
    by (simp add: sum_over_teams_def upt_teams eval_lin_def)
qed

lemma equal_size_mem:
  assumes "t < num_teams"
  shows "Ge (sum_over_players [0..<n] t) (int (n div num_teams)) \<in> set (equal_size_constraints n)"
    and "Le (sum_over_players [0..<n] t) (int (n div num_teams) + 1) \<in> set (equal_size_constraints n)"
  unfolding equal_size_constraints_def Let_def
  using assms by (auto intro!: in_concat_mapI[of t])

lemma sat_size:
  assumes "satisfies (make_model positions skills) val" "t < num_teams"
  shows "int (length positions div 2) \<le> eval_lin val (sum_over_players [0..<length positions] t)
       \<and> eval_lin val (sum_over_players [0..<length positions] t) \<le> int (length positions div 2) + 1"
proof -
  let ?e = "sum_over_players [0..<length positions] t"
  let ?k = "int (length positions div num_teams)"
  have "Ge ?e ?k \<in> set (constraints (make_model positions skills))"
       "Le ?e (?k + 1) \<in> set (constraints (make_model positions skills))"
    using equal_size_mem[OF assms(2), of "length positions"] by (simp_all add: make_model_def)
  from this[THEN sat_constraint[OF assms(1)]] show ?thesis
    by (simp add: num_teams_def)
qed

lemma position_mem:
  assumes "t < num_teams" "u \<in> set (unique_values positions)"
  shows "Ge (sum_over_players (pos_indices positions u) t)
            (int (length (pos_indices positions u) div num_teams))
           \<in> set (position_constraints positions)"
    and "Le (sum_over_players (pos_indices positions u) t)
            (max_per_team (length (pos_indices positions u)))
           \<in> set (position_constraints positions)"
proof -
  let ?idx = "pos_indices positions u"
  let ?per_team = "\<lambda>t. [Ge (sum_over_players ?idx t) (int (length ?idx div num_teams)),
                         Le (sum_over_players ?idx t) (max_per_team (length ?idx))]"
  have t: "t \<in> set [0..<num_teams]"
    using assms(1) by simp
  have "Ge (sum_over_players ?idx t) (int (length ?idx div num_teams))
          \<in> set (concat (map ?per_team [0..<num_teams]))"
    by (rule in_concat_mapI[OF t]) simp
  then show "Ge (sum_over_players ?idx t) (int (length ?idx div num_teams))
          \<in> set (position_constraints positions)"
    unfolding position_constraints_def Let_def by (rule in_concat_mapI[OF assms(2)])
  have "Le (sum_over_players ?idx t) (max_per_team (length ?idx))
          \<in> set (concat (map ?per_team [0..<num_teams]))"
    by (rule in_concat_mapI[OF t]) simp
  then show "Le (sum_over_players ?idx t) (max_per_team (length ?idx))
          \<in> set (position_constraints positions)"
    unfolding position_constraints_def Let_def by (rule in_concat_mapI[OF assms(2)])
qed

lemma max_per_team_eq: "max_per_team c = int ((c + 1) div 2)"
  unfolding max_per_team_def num_teams_def by (simp add: ceiling_eq_iff) linarith

lemma sat_position:
  assumes "satisfies (make_model positions skills) val" "t < num_teams"
    and "u \<in> set (unique_values positions)"
  shows "int (length (pos_indices positions u) div 2) \<le> eval_lin val (sum_over_players (pos_indices positions u) t)
       \<and> eval_lin val (sum_over_players (pos_indices positions u) t) \<le> int ((length (pos_indices positions u) + 1) div 2)"
proof -
  let ?idx = "pos_indices positions u"
  let ?e = "sum_over_players ?idx t"
  have "Ge ?e (int (length ?idx div num_teams)) \<in> set (constraints (make_model positions skills))"
       "Le ?e (max_per_team (length ?idx)) \<in> set (constraints (make_model positions skills))"
    using position_mem[OF assms(2,3)] by (simp_all add: make_model_def)
  from this[THEN sat_constraint[OF assms(1)]] show ?thesis
    by (simp add: num_teams_def max_per_team_eq)
qed

lemma eval_lin_minus: "eval_lin val (lin_minus a b) = eval_lin val a - eval_lin val b"
  by (induction b) (simp_all add: lin_minus_def eval_lin_def)

lemma sat_abs:
  assumes "satisfies (make_model positions skills) val"
  shows "val Diff = \<bar>eval_lin val (t_score skills 0) - eval_lin val (t_score skills 1)\<bar>"
proof -
  have "AbsEquality Diff (lin_minus (t_score skills 0) (t_score skills 1))
          \<in> set (constraints (make_model positions skills))"
    by (simp add: make_model_def)
  from sat_constraint[OF assms this] show ?thesis
    by (simp add: eval_lin_minus)
qed

lemma diff_declared: "map_of (variables (make_model positions skills)) Diff = Some (0, 100000)"
proof -
  have "map_of (bool_vars n) Diff = None" for n
    by (rule map_of_eq_None_iff[THEN iffD2]) (auto simp: bool_vars_def)
  then show ?thesis
    by (simp add: make_model_def map_add_def diff_var_def)
qed

lemma in_domain_boolD:
  assumes "list_all (in_domain val) (bool_vars n)" "p < n" "t < num_teams"
  shows "0 \<le> val (X p t) \<and> val (X p t) \<le> 1"
  using assms bool_vars_mem[OF assms(2,3)] by (auto simp: list_all_iff in_domain_def)

section \<open>The extraction loop\<close>

lemma product_snoc: "List.product (xs @ [x]) ys = List.product xs ys @ map (Pair x) ys"
  by (induction xs) simp_all

lemma extract_upto_Suc:
  "extract_upto val cn players (Suc k) =
     extract_step val cn (extract_step val cn (extract_upto val cn players k) (k, 0)) (k, 1)"
  by (simp add: extract_upto_def product_snoc upt_teams)

lemma extract_invariant:
  "k \<le> length players \<Longrightarrow>
     length (fst (extract_upto val cn players k)) = length players
   \<and> (\<forall>i<length players. fst (extract_upto val cn players k) ! i =
         (if i < k then tag_player val cn i (players ! i) else players ! i))
   \<and> snd (extract_upto val cn players k) = [assigned val 0 [0..<k], assigned val 1 [0..<k]]"
proof (induction k)
  case 0
  then show ?case by (simp add: assigned_def extract_upto_def)
next
  case (Suc k)
  obtain ps rs where st: "extract_upto val cn players k = (ps, rs)"
    by (cases "extract_upto val cn players k")
  from Suc st have k: "k < length players" and ps: "length ps = length players"
     "\<forall>i<length players. ps ! i = (if i < k then tag_player val cn i (players ! i) else players ! i)"
    and rs: "rs = [assigned val 0 [0..<k], assigned val 1 [0..<k]]" by simp_all
  show ?case unfolding extract_upto_Suc st using k ps rs
    by (auto simp: extract_step_def Let_def tag_player_def set_team_def assigned_def nth_list_update less_Suc_eq)
qed

lemma extract_rosters_eq:
  "extract_rosters val cn players =
     [map (\<lambda>p. tag_player val cn p (players ! p)) (assigned val 0 [0..<length players]),
      map (\<lambda>p. tag_player val cn p (players ! p)) (assigned val 1 [0..<length players])]"
  using extract_invariant[of "length players" players val cn]
  by (simp add: extract_rosters_def extract_upto_def[symmetric] Let_def assigned_def)

section \<open>Reading the result of \<^verbatim>\<open>solve_cohort_v2\<close>\<close>

lemma length_to_dict_records: "length (to_dict_records df) = length (rows df)"
  by (simp add: to_dict_records_def)

lemma getitems_Inr:
  "getitems players key = Inr vs \<Longrightarrow>
     length vs = length players \<and> (\<forall>i<length players. map_of (players ! i) key = Some (vs ! i))"
proof (induction players arbitrary: vs)
  case Nil
  then show ?case by simp
next
  case (Cons p ps)
  then show ?case
    by (auto simp: getitem_def nth_Cons split: sum.splits option.splits nat.splits)
qed

lemma skill_coeffs_Inr:
  "skill_coeffs cells = Inr skills \<Longrightarrow>
     length skills = length cells \<and> (\<forall>i<length cells. skill_coeff (cells ! i) = Inr (skills ! i))"
proof (induction cells arbitrary: skills)
  case Nil
  then show ?case by simp
next
  case (Cons c cs)
  then show ?case
    by (auto simp: nth_Cons split: sum.splits nat.splits)
qed

lemma skill_of_coeff:
  "map_of r ''skill_score'' = Some c \<Longrightarrow> skill_coeff c = Inr k \<Longrightarrow> skill_of r = k"
  by (cases c) (auto simp: skill_of_def)

lemma build_model_Inr:
  assumes "build_model players = Inr m"
  obtains positions cells skills where
    "getitems players ''position'' = Inr positions"
    "getitems players ''skill_score'' = Inr cells"
    "skill_coeffs cells = Inr skills"
    "m = make_model positions skills"
  using assms by (auto simp: build_model_def split: sum.splits)

lemma skills_of_players:
  assumes "getitems players ''skill_score'' = Inr cells" "skill_coeffs cells = Inr skills"
  shows "map skill_of players = skills"
proof (rule nth_equalityI)
  from getitems_Inr[OF assms(1)] skill_coeffs_Inr[OF assms(2)]
  have n: "length skills = length players"
    and at: "\<forall>i<length players. map_of (players ! i) ''skill_score'' = Some (cells ! i)"
    and co: "\<forall>i<length players. skill_coeff (cells ! i) = Inr (skills ! i)"
    by simp_all
  show "length (map skill_of players) = length skills"
    using n by simp
  show "map skill_of players ! i = skills ! i" if "i < length (map skill_of players)" for i
    using that at co by (auto intro: skill_of_coeff)
qed

lemma map_of_set_team:
  "key \<noteq> ''Assigned_Team'' \<Longrightarrow> map_of (set_team cn t r) key = map_of r key"
  by (simp add: set_team_def update_conv')

lemma map_of_tag_player:
  "key \<noteq> ''Assigned_Team'' \<Longrightarrow> map_of (tag_player val cn p r) key = map_of r key"
  by (simp add: tag_player_def Let_def map_of_set_team)

lemma delete_tag_player:
  "AList.delete ''Assigned_Team'' (tag_player val cn p r) = AList.delete ''Assigned_Team'' r"
  by (simp add: tag_player_def set_team_def Let_def delete_update_same)

lemma tag_player_label:
  assumes "(val (X p 0) = 1) \<noteq> (val (X p 1) = 1)" "val (X p t) = 1" "t = 0 \<or> t = 1"
  shows "map_of (tag_player val cn p r) ''Assigned_Team'' = Some (PStr (team_label cn t))"
  using assms by (auto simp: tag_player_def set_team_def Let_def update_conv')

lemma eval_sum_over_players:
  "\<forall>p\<in>set ps. val (X p t) = 0 \<or> val (X p t) = 1 \<Longrightarrow>
     eval_lin val (sum_over_players ps t) = int (length (assigned val t ps))"
  by (induction ps) (auto simp: eval_lin_def sum_over_players_def assigned_def)

lemma eval_weighted:
  "\<forall>p\<in>set ps. val (X p t) = 0 \<or> val (X p t) = 1 \<Longrightarrow>
     sum_list (map (\<lambda>p. w p * val (X p t)) ps) = sum_list (map w (assigned val t ps))"
  by (induction ps) (auto simp: assigned_def)

lemma eval_t_score:
  "eval_lin val (t_score skills t) = sum_list (map (\<lambda>p. skills ! p * val (X p t)) [0..<length skills])"
  by (simp add: eval_lin_def t_score_def o_def)

lemma weighted_sum_bounds:
  fixes w v :: "nat \<Rightarrow> int"
  assumes "\<forall>p\<in>set ps. 0 \<le> w p \<and> 0 \<le> v p \<and> v p \<le> 1"
  shows "0 \<le> sum_list (map (\<lambda>p. w p * v p) ps) \<and> sum_list (map (\<lambda>p. w p * v p) ps) \<le> sum_list (map w ps)"
  using assms
proof (induction ps)
  case Nil
  then show ?case by simp
next
  case (Cons p ps)
  then have "0 \<le> w p * v p" "w p * v p \<le> w p"
    by (simp_all add: mult_left_le)
  with Cons show ?case by auto
qed

lemma t_score_bounds:
  assumes "list_all (in_domain val) (bool_vars (length skills))" "\<forall>s\<in>set skills. 0 \<le> s" "t < num_teams"
  shows "0 \<le> eval_lin val (t_score skills t) \<and> eval_lin val (t_score skills t) \<le> sum_list skills"
proof -
  have "\<forall>p\<in>set [0..<length skills]. 0 \<le> skills ! p \<and> 0 \<le> val (X p t) \<and> val (X p t) \<le> 1"
    using in_domain_boolD[OF assms(1) _ assms(3)] assms(2) by simp
  from weighted_sum_bounds[of "[0..<length skills]" "\<lambda>p. skills ! p" "\<lambda>p. val (X p t)", OF this]
  show ?thesis by (simp add: eval_t_score map_nth)
qed

lemma solve_cohort_v2_SomeD:
  assumes "solver_sound solver"
    and "solve_cohort_v2 solver cn df = Inr (Some (rosters, d))"
  obtains positions cells skills val where
    "getitems (to_dict_records df) ''position'' = Inr positions"
    "getitems (to_dict_records df) ''skill_score'' = Inr cells"
    "skill_coeffs cells = Inr skills"
    "satisfies (make_model positions skills) val"
    "rosters = extract_rosters val cn (to_dict_records df)"
    "d = val Diff"
proof -
  let ?players = "to_dict_records df"
  from assms(2) obtain m where m: "build_model ?players = Inr m"
    by (auto simp: solve_cohort_v2_def Let_def split: sum.splits)
  then obtain positions cells skills where
    b: "getitems ?players ''position'' = Inr positions"
       "getitems ?players ''skill_score'' = Inr cells"
       "skill_coeffs cells = Inr skills" "m = make_model positions skills"
    by (auto simp: build_model_def split: sum.splits)
  from assms(2) m have st: "fst (solver m) = OPTIMAL \<or> fst (solver m) = FEASIBLE"
    and r: "rosters = extract_rosters (snd (solver m)) cn ?players" "d = snd (solver m) Diff"
    by (auto simp: solve_cohort_v2_def Let_def split: if_splits)
  from assms(1) st have "satisfies m (snd (solver m))"
    unfolding solver_sound_def by blast
  with b r that show thesis by blast
qed

lemma two_filters:
  "\<forall>x\<in>set xs. P x \<noteq> Q x \<Longrightarrow> length (filter P xs) + length (filter Q xs) = length xs"
  by (induction xs) auto

lemma two_filters_mset:
  "\<forall>x\<in>set xs. P x \<noteq> Q x \<Longrightarrow> mset (filter P xs) + mset (filter Q xs) = mset xs"
  by (induction xs) auto

lemma exactly_one_team:
  assumes "satisfies (make_model positions skills) val" "p < length positions"
  shows "(val (X p 0) = 1) \<noteq> (val (X p 1) = 1)"
  using sat_one_team[OF assms] sat_bool[OF assms, of 0] sat_bool[OF assms, of 1]
  by (auto simp: num_teams_def)

lemma team_sizes:
  assumes sat: "satisfies (make_model positions skills) val"
  defines "n \<equiv> length positions"
  defines "s0 \<equiv> length (assigned val 0 [0..<n])" and "s1 \<equiv> length (assigned val 1 [0..<n])"
  shows "s0 + s1 = n" and "n div 2 \<le> s0" and "s0 \<le> n div 2 + 1" and "n div 2 \<le> s1" and "s1 \<le> n div 2 + 1"
proof -
  have bools: "\<forall>p\<in>set [0..<n]. val (X p t) = 0 \<or> val (X p t) = 1" if "t < num_teams" for t
    using sat_bool[OF sat _ that] by (simp add: n_def)
  show "s0 + s1 = n"
    using two_filters[of "[0..<n]" "\<lambda>p. val (X p 0) = 1" "\<lambda>p. val (X p 1) = 1"] exactly_one_team[OF sat]
    by (simp add: s0_def s1_def assigned_def n_def)
  have "int (n div 2) \<le> int s0 \<and> int s0 \<le> int (n div 2) + 1"
    using sat_size[OF sat, of 0] eval_sum_over_players[OF bools[of 0]]
    by (simp add: n_def s0_def num_teams_def)
  then show "n div 2 \<le> s0" "s0 \<le> n div 2 + 1" by linarith+
  have "int (n div 2) \<le> int s1 \<and> int s1 \<le> int (n div 2) + 1"
    using sat_size[OF sat, of 1] eval_sum_over_players[OF bools[of 1]]
    by (simp add: n_def s1_def num_teams_def)
  then show "n div 2 \<le> s1" "s1 \<le> n div 2 + 1" by linarith+
qed

lemma assigned_bound: "p \<in> set (assigned val t [0..<n]) \<Longrightarrow> p < n"
  by (simp add: assigned_def)

lemma player_in_roster:
  assumes sat: "satisfies (make_model positions skills) val"
    and n: "length positions = length players" and p: "p < length players"
  shows "\<exists>t. t < 2 \<and> tag_player val cn p (players ! p) \<in> set (extract_rosters val cn players ! t)"
proof -
  from exactly_one_team[OF sat, of p] p n
  have "val (X p 0) = 1 \<or> val (X p 1) = 1" by auto
  then show ?thesis
  proof
    assume "val (X p 0) = 1"
    with p have "p \<in> set (assigned val 0 [0..<length players])"
      by (simp add: assigned_def)
    then have "tag_player val cn p (players ! p) \<in> set (extract_rosters val cn players ! 0)"
      by (simp add: extract_rosters_eq)
    then show ?thesis by (intro exI[of _ 0]) simp
  next
    assume "val (X p 1) = 1"
    with p have "p \<in> set (assigned val 1 [0..<length players])"
      by (simp add: assigned_def)
    then have "tag_player val cn p (players ! p) \<in> set (extract_rosters val cn players ! 1)"
      by (simp add: extract_rosters_eq)
    then show ?thesis by (intro exI[of _ 1]) simp
  qed
qed

lemma map_nth_fun: "map (\<lambda>i. f (xs ! i)) [0..<length xs] = map f xs"
  by (rule nth_equalityI) simp_all

lemma mset_del_roster:
  "mset (map (AList.delete ''Assigned_Team'') (map (\<lambda>p. tag_player val cn p (players ! p)) xs))
     = image_mset (\<lambda>p. AList.delete ''Assigned_Team'' (players ! p)) (mset xs)"
  by (induction xs) (simp_all add: delete_tag_player)

lemma roster_skill_team:
  assumes cells: "getitems players ''skill_score'' = Inr cells"
    and skills: "skill_coeffs cells = Inr skills"
    and bools: "\<forall>p<length players. val (X p t) = 0 \<or> val (X p t) = 1"
  shows "roster_skill (map (\<lambda>p. tag_player val cn p (players ! p)) (assigned val t [0..<length players]))
           = eval_lin val (t_score skills t)"
proof -
  from getitems_Inr[OF cells] skill_coeffs_Inr[OF skills]
  have n: "length skills = length players"
    and at: "\<forall>i<length players. map_of (players ! i) ''skill_score'' = Some (cells ! i)"
    and co: "\<forall>i<length players. skill_coeff (cells ! i) = Inr (skills ! i)"
    by simp_all
  have sk: "skill_of (tag_player val cn p (players ! p)) = skills ! p" if "p < length players" for p
    using that at co by (auto intro!: skill_of_coeff simp: map_of_tag_player)
  have "map skill_of (map (\<lambda>p. tag_player val cn p (players ! p)) (assigned val t [0..<length players]))
          = map (\<lambda>p. skills ! p) (assigned val t [0..<length players])"
    unfolding map_map o_def by (rule map_cong[OF refl]) (simp add: sk assigned_bound)
  then have "roster_skill (map (\<lambda>p. tag_player val cn p (players ! p)) (assigned val t [0..<length players]))
          = sum_list (map (\<lambda>p. skills ! p) (assigned val t [0..<length players]))"
    unfolding roster_skill_def by (rule arg_cong)
  also have "\<dots> = sum_list (map (\<lambda>p. skills ! p * val (X p t)) [0..<length players])"
    by (rule eval_weighted[symmetric]) (use bools in simp)
  also have "\<dots> = eval_lin val (t_score skills t)"
    by (simp add: eval_t_score n)
  finally show ?thesis .
qed

section \<open>Position categories\<close>

lemma py_eq_sym: "py_eq a b \<Longrightarrow> py_eq b a"
  by (cases a; cases b) (auto split: if_splits)

lemma py_eq_trans: "py_eq a b \<Longrightarrow> py_eq b c \<Longrightarrow> py_eq a c"
  by (cases a; cases b; cases c) (auto split: if_splits)

lemma py_eq_left_refl: "py_eq a b \<Longrightarrow> py_eq a a"
  by (blast intro: py_eq_sym py_eq_trans)

lemma py_eq_PStr: "py_eq v (PStr c) \<longleftrightarrow> v = PStr c"
  by (cases v) auto

lemma unique_values_repr:
  "v \<in> set vs \<Longrightarrow> py_eq v v \<Longrightarrow> \<exists>u\<in>set (unique_values vs). py_eq v u"
proof (induction vs)
  case Nil
  then show ?case by simp
next
  case (Cons x xs)
  show ?case
  proof (cases "v = x")
    case True
    with Cons.prems show ?thesis by auto
  next
    case False
    with Cons obtain u where u: "u \<in> set (unique_values xs)" "py_eq v u" by auto
    show ?thesis
    proof (cases "py_eq u x")
      case True
      with u have "py_eq v x" by (blast intro: py_eq_trans)
      then show ?thesis by auto
    next
      case False
      with u show ?thesis by auto
    qed
  qed
qed

lemma pos_indices_cong:
  assumes "py_eq pos u"
  shows "pos_indices positions pos = pos_indices positions u"
proof -
  have "py_eq w pos = py_eq w u" for w
    using assms by (blast intro: py_eq_sym py_eq_trans)
  then show ?thesis by (simp add: pos_indices_def)
qed

lemma pos_indices_cases:
  "pos_indices positions pos = [] \<or>
   (\<exists>u\<in>set (unique_values positions). pos_indices positions pos = pos_indices positions u)"
proof (cases "pos_indices positions pos = []")
  case True
  then show ?thesis by simp
next
  case False
  then obtain i where i: "i < length positions" "py_eq (positions ! i) pos"
    by (auto simp: pos_indices_def filter_empty_conv)
  then have "positions ! i \<in> set positions" "py_eq (positions ! i) (positions ! i)"
    by (auto intro: py_eq_left_refl)
  from unique_values_repr[OF this] obtain u where
    u: "u \<in> set (unique_values positions)" "py_eq (positions ! i) u" by blast
  with i have "py_eq pos u" by (blast intro: py_eq_sym py_eq_trans)
  with u show ?thesis by (blast intro: pos_indices_cong)
qed

lemma pos_indices_bound: "p \<in> set (pos_indices positions pos) \<Longrightarrow> p < length positions"
  by (simp add: pos_indices_def)

lemma position_split:
  assumes sat: "satisfies (make_model positions skills) val" and t: "t < num_teams"
  shows "length (pos_indices positions pos) div 2 \<le> length (assigned val t (pos_indices positions pos))
       \<and> length (assigned val t (pos_indices positions pos)) \<le> (length (pos_indices positions pos) + 1) div 2"
proof -
  from pos_indices_cases[of positions pos] show ?thesis
  proof
    assume "pos_indices positions pos = []"
    then show ?thesis by (simp add: assigned_def)
  next
    assume "\<exists>u\<in>set (unique_values positions). pos_indices positions pos = pos_indices positions u"
    then obtain u where u: "u \<in> set (unique_values positions)"
      and eq: "pos_indices positions pos = pos_indices positions u" by blast
    have "\<forall>p\<in>set (pos_indices positions u). val (X p t) = 0 \<or> val (X p t) = 1"
      using sat_bool[OF sat _ t] pos_indices_bound by blast
    from eval_sum_over_players[OF this] sat_position[OF sat t u] show ?thesis
      unfolding eq by linarith
  qed
qed

lemma assigned_pos_indices:
  "filter (\<lambda>p. py_eq (positions ! p) pos) (assigned val t [0..<length positions])
     = assigned val t (pos_indices positions pos)"
  by (simp add: assigned_def pos_indices_def conj_commute)

lemma position_count_players:
  assumes "getitems players ''position'' = Inr positions"
  shows "position_count players pos = length (pos_indices positions pos)"
proof -
  from getitems_Inr[OF assms] have n: "length positions = length players"
    and at: "\<forall>i<length players. map_of (players ! i) ''position'' = Some (positions ! i)"
    by simp_all
  have "filter (has_position pos) (map (\<lambda>i. players ! i) [0..<length players])
          = map (\<lambda>i. players ! i) (filter (\<lambda>i. py_eq (positions ! i) pos) [0..<length players])"
    unfolding filter_map o_def
    by (rule arg_cong[where f = "map _"], rule filter_cong) (simp_all add: has_position_def at)
  then show ?thesis
    by (simp add: position_count_def pos_indices_def n map_nth)
qed

lemma position_count_roster:
  assumes "getitems players ''position'' = Inr positions"
  shows "position_count (map (\<lambda>p. tag_player val cn p (players ! p)) (assigned val t [0..<length players])) pos
           = length (assigned val t (pos_indices positions pos))"
proof -
  from getitems_Inr[OF assms] have n: "length positions = length players"
    and at: "\<forall>i<length players. map_of (players ! i) ''position'' = Some (positions ! i)"
    by simp_all
  have "filter (has_position pos \<circ> (\<lambda>p. tag_player val cn p (players ! p))) (assigned val t [0..<length players])
          = filter (\<lambda>p. py_eq (positions ! p) pos) (assigned val t [0..<length players])"
    by (rule filter_cong) (auto simp: has_position_def map_of_tag_player at dest: assigned_bound)
  then show ?thesis
    by (simp add: position_count_def filter_map assigned_pos_indices[symmetric] n)
qed

section \<open>The ghost row\<close>

lemma map_of_foldl_update:
  "map_of (foldl (\<lambda>d kv. AList.update (fst kv) (snd kv) d) d kvs) k =
     (case map_of (rev kvs) k of None \<Rightarrow> map_of d k | Some v \<Rightarrow> Some v)"
proof (induction kvs arbitrary: d)
  case Nil
  then show ?case by simp
next
  case (Cons kv kvs)
  show ?case
    by (auto simp: Cons update_conv' map_add_def split: option.splits)
qed

lemma map_of_py_dict: "map_of (py_dict kvs) k = map_of (rev kvs) k"
  by (simp add: py_dict_def map_of_foldl_update split: option.splits)

lemma map_of_py_dict_zip_map:
  "map_of (py_dict (zip ks (map f ks))) k = (if k \<in> set ks then Some (f k) else None)"
proof -
  have "rev (zip ks (map f ks)) = zip (rev ks) (rev (map f ks))"
    by (rule zip_rev[symmetric]) simp
  then have "rev (zip ks (map f ks)) = zip (rev ks) (map f (rev ks))"
    by (simp only: rev_map)
  then show ?thesis
    by (simp add: map_of_py_dict map_of_zip_map)
qed

lemma columns_pd_concat_row:
  "set (columns (pd_concat_row df rec)) = set (columns df) \<union> fst ` set rec"
  by (auto simp: pd_concat_row_def Let_def)

lemma rows_pd_concat_row:
  "rows (pd_concat_row df rec) =
     map (\<lambda>r. r @ replicate (length (columns (pd_concat_row df rec)) - length (columns df)) PNaN) (rows df)
     @ [map (rec_cell rec) (columns (pd_concat_row df rec))]"
  by (simp add: pd_concat_row_def Let_def)

lemma last_record_pd_concat_row:
  "map_of (last (to_dict_records (pd_concat_row df rec))) k =
     (if k \<in> set (columns df) \<union> fst ` set rec then Some (rec_cell rec k) else None)"
proof -
  let ?df = "pd_concat_row df rec"
  have "last (to_dict_records ?df) = py_dict (zip (columns ?df) (map (rec_cell rec) (columns ?df)))"
    by (simp add: to_dict_records_def rows_pd_concat_row)
  then show ?thesis
    by (simp only: map_of_py_dict_zip_map columns_pd_concat_row)
qed

lemma ghost_cells:
  "rec_cell ghost ''name'' = PStr ''GHOST_GK_PLACEHOLDER''"
  "rec_cell ghost ''position'' = PStr ''GK''"
  "rec_cell ghost ''category'' = PStr ''Group_2010_Plus''"
  "rec_cell ghost ''skill_score'' = PInt 50"
  "rec_cell ghost ''is_placeholder'' = PNaN"
  by (simp_all add: rec_cell_def ghost_def)

lemma ghost_keys:
  "''name'' \<in> fst ` set ghost" "''position'' \<in> fst ` set ghost"
  "''category'' \<in> fst ` set ghost" "''skill_score'' \<in> fst ` set ghost"
  by (simp_all add: ghost_def)

lemma ghost_record:
  fixes df :: dataframe
  defines "g \<equiv> last (to_dict_records (pd_concat_row df ghost))"
  shows "map_of g ''name'' = Some (PStr ''GHOST_GK_PLACEHOLDER'')"
    and "map_of g ''position'' = Some (PStr ''GK'')"
    and "map_of g ''category'' = Some (PStr ''Group_2010_Plus'')"
    and "map_of g ''skill_score'' = Some (PInt 50)"
    and "map_of g ''is_placeholder'' \<noteq> Some (PBool True)"
  unfolding g_def last_record_pd_concat_row
  using ghost_keys by (simp_all add: ghost_cells)

lemma gks_2010_count: "length (gks_2010 df) = gk_count df ''Group_2010_Plus''"
  by (simp add: gks_2010_def gk_count_def)

lemma ghost_row_in_cohort:
  "cell_is (pd_concat_row df ghost) ''category'' (PStr ''Group_2010_Plus'')
     (map (rec_cell ghost) (columns (pd_concat_row df ghost)))"
  using ghost_keys
  by (simp add: cell_is_def map_of_py_dict_zip_map columns_pd_concat_row ghost_cells)

lemma last_cohort_2010:
  fixes df :: dataframe
  defines "players \<equiv> to_dict_records (cohort_data (pd_concat_row df ghost) ''Group_2010_Plus'')"
  shows "players \<noteq> []" and "last players = last (to_dict_records (pd_concat_row df ghost))"
  unfolding players_def
  using ghost_row_in_cohort[of df]
  by (simp_all add: to_dict_records_def cohort_data_def rows_pd_concat_row)

section \<open>The cohort loop with and without one cohort\<close>

lemma cell_is_iff:
  "cell_is df key (PStr c) r \<longleftrightarrow> rec_cell (py_dict (zip (columns df) r)) key = PStr c"
  by (auto simp: cell_is_def rec_cell_def py_eq_PStr split: option.splits)

lemma cell_is_without: "cell_is (without_cohort df f) key v r = cell_is df key v r"
  by (simp add: cell_is_def without_cohort_def)

lemma cohort_data_without:
  assumes "c \<noteq> f"
  shows "cohort_data (without_cohort df f) c = cohort_data df c"
proof -
  have "filter (cell_is df ''category'' (PStr c))
          (filter (\<lambda>r. \<not> cell_is df ''category'' (PStr f) r) (rows df))
        = filter (cell_is df ''category'' (PStr c)) (rows df)"
    unfolding filter_filter
    by (rule filter_cong) (use assms in \<open>auto simp: cell_is_iff\<close>)
  then show ?thesis
    unfolding cohort_data_def cell_is_without[abs_def]
    by (simp add: without_cohort_def)
qed

lemma category_cells_without:
  "category_cells (without_cohort df f) = filter (\<lambda>v. v \<noteq> PStr f) (category_cells df)"
  by (simp add: category_cells_def without_cohort_def filter_map o_def cell_is_iff)

lemma map_filter_filter_strs:
  assumes "list_all (\<lambda>c. cell_str c \<noteq> None) cells"
  shows "List.map_filter cell_str (filter (\<lambda>v. v \<noteq> PStr f) cells)
           = filter (\<lambda>s. s \<noteq> f) (List.map_filter cell_str cells)"
  using assms
proof (induction cells)
  case Nil
  then show ?case by (simp add: List.map_filter_simps)
next
  case (Cons v vs)
  then obtain s where "v = PStr s"
    by (cases v) auto
  with Cons show ?case
    by (simp add: List.map_filter_simps)
qed

lemma cohort_names_without:
  assumes "cohort_names df = Inr cohorts"
  shows "cohort_names (without_cohort df f) =
           (if filter (\<lambda>c. c \<noteq> f) cohorts = [] then Inl StreamlitAPIException
            else Inr (filter (\<lambda>c. c \<noteq> f) cohorts))"
proof -
  from assms have col: "''category'' \<in> set (columns df)"
    and strs: "list_all (\<lambda>c. cell_str c \<noteq> None) (category_cells df)"
    and cs: "cohorts = sort (remdups (List.map_filter cell_str (category_cells df)))"
    by (auto simp: cohort_names_def Let_def split: if_splits)
  have strs': "list_all (\<lambda>c. cell_str c \<noteq> None) (category_cells (without_cohort df f))"
    using strs by (simp add: category_cells_without list_all_iff)
  have "sort (remdups (List.map_filter cell_str (category_cells (without_cohort df f))))
          = filter (\<lambda>c. c \<noteq> f) cohorts"
    by (simp add: category_cells_without map_filter_filter_strs[OF strs] remdups_filter filter_sort cs)
  with col strs' show ?thesis
    by (simp add: cohort_names_def Let_def without_cohort_def)
qed

lemma cohort_loop_without:
  assumes fail: "solve_cohort_v2 solver f (cohort_data df f) = Inr None"
  shows "cohort_loop solver (without_cohort df f) (filter (\<lambda>c. c \<noteq> f) cohorts)
           (final_roster, messages_without f messages)
         = (case cohort_loop solver df cohorts (final_roster, messages) of
              Inl e \<Rightarrow> Inl e
            | Inr s \<Rightarrow> Inr (fst s, messages_without f (snd s)))"
proof (induction cohorts arbitrary: final_roster messages)
  case Nil
  then show ?case by simp
next
  case (Cons c cs)
  show ?case
  proof (cases "c = f")
    case True
    have "messages_without f (messages @ [(f, NoFeasibleSolution)]) = messages_without f messages"
      by (simp add: messages_without_def)
    with Cons[of final_roster "messages @ [(f, NoFeasibleSolution)]"] True fail
    show ?thesis by simp
  next
    case False
    have m: "messages_without f (messages @ [(c, msg)]) = messages_without f messages @ [(c, msg)]" for msg
      using False by (simp add: messages_without_def)
    show ?thesis
    proof (cases "solve_cohort_v2 solver c (cohort_data df c)")
      case (Inl e)
      with False show ?thesis by (simp add: cohort_data_without)
    next
      case (Inr res)
      show ?thesis
      proof (cases res)
        case None
        with Inr False Cons[of final_roster "messages @ [(c, NoFeasibleSolution)]"]
        show ?thesis by (simp add: cohort_data_without m)
      next
        case (Some a)
        with Inr False Cons[of "final_roster @ concat (fst a)" "messages @ [(c, Optimized (snd a))]"]
        show ?thesis by (simp add: cohort_data_without m)
      qed
    qed
  qed
qed

lemma cohort_loop_messages:
  assumes "\<forall>c\<in>set cohorts. \<exists>res. solve_cohort_v2 solver c (cohort_data df c) = Inr res"
  shows "\<exists>final_roster'.
           cohort_loop solver df cohorts (final_roster, messages)
             = Inr (final_roster', messages @ map (\<lambda>c. (c, cohort_message solver df c)) cohorts)"
  using assms
proof (induction cohorts arbitrary: final_roster messages)
  case Nil
  then show ?case by simp
next
  case (Cons c cs)
  then obtain res where res: "solve_cohort_v2 solver c (cohort_data df c) = Inr res"
    by auto
  from Cons.prems have rest: "\<forall>c\<in>set cs. \<exists>res. solve_cohort_v2 solver c (cohort_data df c) = Inr res"
    by simp
  show ?case
  proof (cases res)
    case None
    with res Cons.IH[OF rest, of final_roster "messages @ [(c, NoFeasibleSolution)]"]
    show ?thesis by (auto simp: cohort_message_def)
  next
    case (Some a)
    with res Cons.IH[OF rest, of "final_roster @ concat (fst a)" "messages @ [(c, Optimized (snd a))]"]
    show ?thesis by (auto simp: cohort_message_def)
  qed
qed

section \<open>Runs on the concrete inputs\<close>

lemma check_solver_sound: "solver_sound (check_solver val)"
  by (simp add: solver_sound_def check_solver_def)

lemma solve_df3: "solve_cohort_v2 (check_solver v3) ''G'' df3 = Inr (Some (rosters3, 5))"
  by code_simp

lemma build_df3: "build_model (to_dict_records df3) = Inr (make_model [PStr ''GK'', PStr ''GK'', PStr ''DEF''] [30, 50, 25])"
  by code_simp

lemma skills_df3: "cohort_skills df3 = [30, 50, 25]"
  by code_simp

lemma rows_df3: "length (rows df3) = 3"
  by (simp add: df3_def)

lemma v3_bools: "list_all (in_domain v3) (bool_vars 3)"
  by code_simp

lemma v3_holds: "list_all (holds v3) (constraints (make_model [PStr ''GK'', PStr ''GK'', PStr ''DEF''] [30, 50, 25]))"
  by code_simp

lemma count_df3_GK: "position_count (to_dict_records df3) (PStr ''GK'') = 2"
  by code_simp

lemma count_rosters3_GK: "position_count (rosters3 ! 0) (PStr ''GK'') = 1"
  by code_simp

lemma skill_rosters3: "roster_skill (rosters3 ! 0) = 55" "roster_skill (rosters3 ! 1) = 50"
  by code_simp+

lemma solve_df1: "solve_cohort_v2 (check_solver v1) ''G'' df1 = Inr (Some (rosters1, 40))"
  by code_simp

lemma build_df1: "build_model (to_dict_records df1) = Inr (make_model [PStr ''MID''] [40])"
  by code_simp

lemma rows_df1: "length (rows df1) = 1"
  by (simp add: df1_def)

lemma inject_2010: "ghost_injection df_2010 = Inr ([GhostWarning], df_2010_ghost)"
  by code_simp

lemma inject_2008: "ghost_injection df_2008 = Inr ([], df_2008)"
  by code_simp

lemma gk_count_2010: "gk_count df_2010 ''Group_2010_Plus'' = 1"
  by code_simp

lemma gk_count_2008: "gk_count df_2008 ''Group_2008_2009'' = 1" "gk_count df_2008 ''Group_2010_Plus'' \<noteq> 1"
  by code_simp+

lemma solve_2010:
  "solve_cohort_v2 (check_solver v_2010) ''Group_2010_Plus'' (cohort_data df_2010_ghost ''Group_2010_Plus'')
     = Inr (Some (rosters_2010, 10))"
  by code_simp

lemma names_two: "cohort_names df_two = Inr [''Group_2008_2009'', ''Group_2010_Plus'']"
  by code_simp

lemma solve_two_2008:
  "solve_cohort_v2 (check_solver v1) ''Group_2008_2009'' (cohort_data df_two ''Group_2008_2009'') = Inr None"
  by code_simp

lemma solve_two_2010:
  "solve_cohort_v2 (check_solver v1) ''Group_2010_Plus'' (cohort_data df_two ''Group_2010_Plus'')
     = Inr (Some ([roster_two, []], 40))"
  by code_simp

lemma run_two:
  "optimize_teams (check_solver v1) df_two
     = Inr (roster_two, [(''Group_2008_2009'', NoFeasibleSolution), (''Group_2010_Plus'', Optimized 40)])"
  by code_simp

section \<open>The claims\<close>

text \<open>
  C1 (size balance). Whenever \<^verbatim>\<open>solve_cohort_v2\<close> returns rosters for a cohort of
  \<open>N\<close> players, the two team sizes are \<open>N div 2\<close> and \<open>(N + 1) div 2\<close> in some
  order; they sum to \<open>N\<close> and differ by at most 1. The solver is any sound one.
\<close>

theorem size_balance:
  assumes "solver_sound solver"
    and "solve_cohort_v2 solver cohort_name df_cohort = Inr (Some (rosters, skill_diff))"
  shows "length rosters = 2
       \<and> length (rosters ! 0) + length (rosters ! 1) = length (rows df_cohort)
       \<and> ((length (rosters ! 0) = length (rows df_cohort) div 2
             \<and> length (rosters ! 1) = (length (rows df_cohort) + 1) div 2)
          \<or> (length (rosters ! 0) = (length (rows df_cohort) + 1) div 2
             \<and> length (rosters ! 1) = length (rows df_cohort) div 2))
       \<and> \<bar>int (length (rosters ! 0)) - int (length (rosters ! 1))\<bar> \<le> 1"
proof -
  from assms obtain positions cells skills val where
    pos: "getitems (to_dict_records df_cohort) ''position'' = Inr positions"
    and sat: "satisfies (make_model positions skills) val"
    and ros: "rosters = extract_rosters val cohort_name (to_dict_records df_cohort)"
    by (rule solve_cohort_v2_SomeD)
  have n: "length positions = length (rows df_cohort)"
    using getitems_Inr[OF pos] by (simp add: to_dict_records_def)
  have len: "length (to_dict_records df_cohort) = length (rows df_cohort)"
    by (simp add: to_dict_records_def)
  let ?n = "length (rows df_cohort)"
  have r0: "length (rosters ! 0) = length (assigned val 0 [0..<?n])"
    and r1: "length (rosters ! 1) = length (assigned val 1 [0..<?n])"
    and r2: "length rosters = 2"
    by (simp_all add: ros extract_rosters_eq len)
  from team_sizes[OF sat] show ?thesis
    unfolding r0 r1 r2 n by (simp; linarith)
qed

text \<open>The theorem at the three-player cohort: teams of 2 and 1.\<close>

theorem size_balance_witness:
  "solver_sound (check_solver v3)
   \<and> solve_cohort_v2 (check_solver v3) ''G'' df3 = Inr (Some (rosters3, 5))
   \<and> length (rows df3) = 3
   \<and> length (rosters3 ! 0) = 2 \<and> length (rosters3 ! 1) = 1"
  using size_balance[OF check_solver_sound solve_df3] check_solver_sound solve_df3
  by (simp add: df3_def rosters3_def)

text \<open>
  C2 (position balance). Whenever \<^verbatim>\<open>solve_cohort_v2\<close> returns rosters, then for
  every position value \<open>pos\<close>, with \<open>C\<close> the number of players of the cohort whose
  position equals it, each of the two teams holds at least \<open>C div 2\<close> and at most
  \<open>(C + 1) div 2\<close> players of that position. Positions are compared as the program
  compares them (\<^verbatim>\<open>==\<close>), so a missing position (NaN) belongs to no category.
\<close>

theorem position_balance:
  assumes "solver_sound solver"
    and "solve_cohort_v2 solver cohort_name df_cohort = Inr (Some (rosters, skill_diff))"
    and "t < 2"
  shows "position_count (to_dict_records df_cohort) pos div 2 \<le> position_count (rosters ! t) pos
       \<and> position_count (rosters ! t) pos \<le> (position_count (to_dict_records df_cohort) pos + 1) div 2"
proof -
  let ?players = "to_dict_records df_cohort"
  from assms(1,2) obtain positions cells skills val where
    pos: "getitems ?players ''position'' = Inr positions"
    and sat: "satisfies (make_model positions skills) val"
    and ros: "rosters = extract_rosters val cohort_name ?players"
    by (rule solve_cohort_v2_SomeD)
  from assms(3) have t: "t < num_teams" "t = 0 \<or> t = 1"
    by (auto simp: num_teams_def)
  have "rosters ! t = map (\<lambda>p. tag_player val cohort_name p (?players ! p)) (assigned val t [0..<length ?players])"
    using t(2) by (auto simp: ros extract_rosters_eq)
  then have "position_count (rosters ! t) pos = length (assigned val t (pos_indices positions pos))"
    by (simp add: position_count_roster[OF pos])
  with position_split[OF sat t(1), of pos] show ?thesis
    by (simp add: position_count_players[OF pos])
qed

text \<open>
  The goalkeepers of the three-player cohort: two in the cohort, one in team 0.
\<close>

theorem position_balance_witness:
  "solver_sound (check_solver v3)
   \<and> solve_cohort_v2 (check_solver v3) ''G'' df3 = Inr (Some (rosters3, 5))
   \<and> (0::nat) < 2
   \<and> position_count (to_dict_records df3) (PStr ''GK'') = 2
   \<and> position_count (rosters3 ! 0) (PStr ''GK'') = 1
   \<and> (2::nat) div 2 \<le> 1 \<and> (1::nat) \<le> (2 + 1) div 2"
  using position_balance[OF check_solver_sound solve_df3, of 0 "PStr ''GK''"]
    check_solver_sound solve_df3 count_df3_GK count_rosters3_GK
  by simp

text \<open>
  C3 (coverage). Whenever \<^verbatim>\<open>solve_cohort_v2\<close> returns rosters, the records of the
  two rosters together are the players of the cohort, each exactly once (as multisets,
  with the key \<^verbatim>\<open>Assigned_Team\<close> that the function adds left aside), and every record
  of team \<open>t\<close> carries the label of team \<open>t\<close>.
\<close>

theorem roster_coverage:
  assumes "solver_sound solver"
    and "solve_cohort_v2 solver cohort_name df_cohort = Inr (Some (rosters, skill_diff))"
  shows "mset (map (AList.delete ''Assigned_Team'') (rosters ! 0 @ rosters ! 1))
           = mset (map (AList.delete ''Assigned_Team'') (to_dict_records df_cohort))
       \<and> (\<forall>t<2. \<forall>r\<in>set (rosters ! t).
             map_of r ''Assigned_Team'' = Some (PStr (team_label cohort_name t)))"
proof -
  let ?players = "to_dict_records df_cohort"
  let ?n = "length ?players"
  let ?del = "AList.delete ''Assigned_Team''"
  from assms obtain positions cells skills val where
    pos: "getitems ?players ''position'' = Inr positions"
    and sat: "satisfies (make_model positions skills) val"
    and ros: "rosters = extract_rosters val cohort_name ?players"
    by (rule solve_cohort_v2_SomeD)
  have n: "length positions = ?n"
    using getitems_Inr[OF pos] by simp
  have one: "(val (X p 0) = 1) \<noteq> (val (X p 1) = 1)" if "p < ?n" for p
    using exactly_one_team[OF sat, of p] that n by simp
  have r: "rosters ! t = map (\<lambda>p. tag_player val cohort_name p (?players ! p)) (assigned val t [0..<?n])"
    if "t = 0 \<or> t = 1" for t
    using that by (auto simp: ros extract_rosters_eq)
  have r0: "rosters ! 0 = map (\<lambda>p. tag_player val cohort_name p (?players ! p)) (assigned val 0 [0..<?n])"
    and r1: "rosters ! 1 = map (\<lambda>p. tag_player val cohort_name p (?players ! p)) (assigned val 1 [0..<?n])"
    by (rule r, simp)+
  have part: "mset (assigned val 0 [0..<?n]) + mset (assigned val 1 [0..<?n]) = mset [0..<?n]"
    unfolding assigned_def by (rule two_filters_mset) (use one in simp)
  have "mset (map ?del (rosters ! 0 @ rosters ! 1))
          = image_mset (\<lambda>p. ?del (?players ! p)) (mset (assigned val 0 [0..<?n]))
          + image_mset (\<lambda>p. ?del (?players ! p)) (mset (assigned val 1 [0..<?n]))"
    unfolding r0 r1 by (simp only: map_append mset_append mset_del_roster)
  also have "\<dots> = image_mset (\<lambda>p. ?del (?players ! p)) (mset [0..<?n])"
    unfolding image_mset_union[symmetric] part ..
  also have "\<dots> = mset (map ?del ?players)"
    by (simp only: mset_map[symmetric] map_nth_fun)
  finally have cover: "mset (map ?del (rosters ! 0 @ rosters ! 1)) = mset (map ?del ?players)" .
  have label: "map_of x ''Assigned_Team'' = Some (PStr (team_label cohort_name t))"
    if "t < 2" "x \<in> set (rosters ! t)" for t x
  proof -
    from that(1) have t: "t = 0 \<or> t = 1" by auto
    with that(2) obtain p where p: "p \<in> set (assigned val t [0..<?n])"
      and x: "x = tag_player val cohort_name p (?players ! p)"
      by (auto simp: r)
    from p have "p < ?n" "val (X p t) = 1" by (simp_all add: assigned_def)
    with one[of p] t show ?thesis unfolding x by (intro tag_player_label) simp_all
  qed
  from cover label show ?thesis by blast
qed

text \<open>
  The three-player cohort: its two rosters hold the three players.
\<close>

theorem roster_coverage_witness:
  "solver_sound (check_solver v3)
   \<and> solve_cohort_v2 (check_solver v3) ''G'' df3 = Inr (Some (rosters3, 5))
   \<and> mset (map (AList.delete ''Assigned_Team'') (rosters3 ! 0 @ rosters3 ! 1))
        = mset (map (AList.delete ''Assigned_Team'') (to_dict_records df3))
   \<and> (1::nat) < 2
   \<and> rosters3 ! 1 ! 0 \<in> set (rosters3 ! 1)
   \<and> map_of (rosters3 ! 1 ! 0) ''Assigned_Team'' = Some (PStr (team_label ''G'' 1))"
proof -
  have mem: "rosters3 ! 1 ! 0 \<in> set (rosters3 ! 1)"
    by (simp add: rosters3_def)
  from roster_coverage[OF check_solver_sound solve_df3] mem
  have "map_of (rosters3 ! 1 ! 0) ''Assigned_Team'' = Some (PStr (team_label ''G'' 1))"
    by (metis one_less_numeral_iff semiring_norm(76))
  with roster_coverage[OF check_solver_sound solve_df3] check_solver_sound solve_df3 mem
  show ?thesis by simp
qed

text \<open>
  C4 (objective correctness). The returned \<^verbatim>\<open>skill_diff\<close> is the absolute difference
  of the two sums of \<^verbatim>\<open>skill_score\<close>, each sum taken over the records of one returned
  roster.
\<close>

theorem objective_correctness:
  assumes "solver_sound solver"
    and "solve_cohort_v2 solver cohort_name df_cohort = Inr (Some (rosters, skill_diff))"
  shows "skill_diff = \<bar>roster_skill (rosters ! 0) - roster_skill (rosters ! 1)\<bar>"
proof -
  let ?players = "to_dict_records df_cohort"
  from assms obtain positions cells skills val where
    pos: "getitems ?players ''position'' = Inr positions"
    and cells: "getitems ?players ''skill_score'' = Inr cells"
    and skills: "skill_coeffs cells = Inr skills"
    and sat: "satisfies (make_model positions skills) val"
    and ros: "rosters = extract_rosters val cohort_name ?players"
    and d: "skill_diff = val Diff"
    by (rule solve_cohort_v2_SomeD)
  have n: "length positions = length ?players"
    using getitems_Inr[OF pos] by simp
  have bools: "\<forall>p<length ?players. val (X p t) = 0 \<or> val (X p t) = 1" if "t < num_teams" for t
    using sat_bool[OF sat _ that] n by simp
  have "roster_skill (rosters ! 0) = eval_lin val (t_score skills 0)"
       "roster_skill (rosters ! 1) = eval_lin val (t_score skills 1)"
    using roster_skill_team[OF cells skills bools, of 0 cohort_name]
          roster_skill_team[OF cells skills bools, of 1 cohort_name]
    by (simp_all add: ros extract_rosters_eq num_teams_def)
  with sat_abs[OF sat] d show ?thesis by simp
qed

text \<open>
  The three-player cohort: 55 against 50, reported difference 5.
\<close>

theorem objective_correctness_witness:
  "solver_sound (check_solver v3)
   \<and> solve_cohort_v2 (check_solver v3) ''G'' df3 = Inr (Some (rosters3, 5))
   \<and> roster_skill (rosters3 ! 0) = 55 \<and> roster_skill (rosters3 ! 1) = 50
   \<and> (5::int) = \<bar>roster_skill (rosters3 ! 0) - roster_skill (rosters3 ! 1)\<bar>"
  using objective_correctness[OF check_solver_sound solve_df3] check_solver_sound solve_df3 skill_rosters3
  by simp

text \<open>
  C5 as stated fails. The only goalkeeper of \<^verbatim>\<open>Group_2008_2009\<close> gets no placeholder.
  Where a placeholder is injected (one goalkeeper, of skill 70, in
  \<^verbatim>\<open>Group_2010_Plus\<close>), its skill score is 50, not the mean 70, and it has no
  \<^verbatim>\<open>is_placeholder\<close> field.
\<close>

theorem ghost_policy_counterexample:
  "gk_count df_2008 ''Group_2008_2009'' = 1
   \<and> ghost_injection df_2008 = Inr ([], df_2008)
   \<and> gk_count df_2010 ''Group_2010_Plus'' = 1
   \<and> gk_skills df_2010 ''Group_2010_Plus'' = [70]
   \<and> ghost_injection df_2010 = Inr ([GhostWarning], df_2010_ghost)
   \<and> map_of (last (to_dict_records df_2010_ghost)) ''skill_score'' = Some (PInt 50)
   \<and> map_of (last (to_dict_records df_2010_ghost)) ''is_placeholder'' = None"
  by code_simp

text \<open>
  C5, amended. The conditioner looks at one cohort only, \<^verbatim>\<open>Group_2010_Plus\<close>. If that
  cohort has exactly one goalkeeper, one row is appended to the frame (the other rows
  are kept, padded with NaN in the new columns) and a warning is shown; the new row has
  position GK, category \<^verbatim>\<open>Group_2010_Plus\<close>, the fixed skill score 50 and the name
  \<^verbatim>\<open>GHOST_GK_PLACEHOLDER\<close>, and no \<^verbatim>\<open>is_placeholder\<close> flag that is true. For any
  other number of goalkeepers in that cohort nothing is injected, whatever the other
  cohorts hold.
\<close>

theorem ghost_injection_policy:
  assumes "''category'' \<in> set (columns df)" and "''position'' \<in> set (columns df)"
  shows "(gk_count df ''Group_2010_Plus'' = 1 \<longrightarrow>
            (\<exists>df'. ghost_injection df = Inr ([GhostWarning], df')
               \<and> length (rows df') = length (rows df) + 1
               \<and> butlast (rows df') =
                     map (\<lambda>r. r @ replicate (length (columns df') - length (columns df)) PNaN) (rows df)
               \<and> map_of (last (to_dict_records df')) ''position'' = Some (PStr ''GK'')
               \<and> map_of (last (to_dict_records df')) ''category'' = Some (PStr ''Group_2010_Plus'')
               \<and> map_of (last (to_dict_records df')) ''skill_score'' = Some (PInt 50)
               \<and> map_of (last (to_dict_records df')) ''name'' = Some (PStr ''GHOST_GK_PLACEHOLDER'')
               \<and> map_of (last (to_dict_records df')) ''is_placeholder'' \<noteq> Some (PBool True)))
       \<and> (gk_count df ''Group_2010_Plus'' \<noteq> 1 \<longrightarrow> ghost_injection df = Inr ([], df))"
proof (intro conjI impI)
  assume one: "gk_count df ''Group_2010_Plus'' = 1"
  let ?df = "pd_concat_row df ghost"
  have "ghost_injection df = Inr ([GhostWarning], ?df)"
    using assms one by (simp add: ghost_injection_def gks_2010_count)
  moreover have "length (rows ?df) = length (rows df) + 1"
    by (simp add: rows_pd_concat_row)
  moreover have "butlast (rows ?df) =
      map (\<lambda>r. r @ replicate (length (columns ?df) - length (columns df)) PNaN) (rows df)"
    by (simp add: rows_pd_concat_row)
  ultimately show "\<exists>df'. ghost_injection df = Inr ([GhostWarning], df')
               \<and> length (rows df') = length (rows df) + 1
               \<and> butlast (rows df') =
                     map (\<lambda>r. r @ replicate (length (columns df') - length (columns df)) PNaN) (rows df)
               \<and> map_of (last (to_dict_records df')) ''position'' = Some (PStr ''GK'')
               \<and> map_of (last (to_dict_records df')) ''category'' = Some (PStr ''Group_2010_Plus'')
               \<and> map_of (last (to_dict_records df')) ''skill_score'' = Some (PInt 50)
               \<and> map_of (last (to_dict_records df')) ''name'' = Some (PStr ''GHOST_GK_PLACEHOLDER'')
               \<and> map_of (last (to_dict_records df')) ''is_placeholder'' \<noteq> Some (PBool True)"
    using ghost_record[of df] by blast
next
  assume "gk_count df ''Group_2010_Plus'' \<noteq> 1"
  then show "ghost_injection df = Inr ([], df)"
    using assms by (simp add: ghost_injection_def gks_2010_count)
qed

text \<open>
  The frame with one goalkeeper in \<^verbatim>\<open>Group_2010_Plus\<close>, where the placeholder is
  injected, and the frame whose only goalkeeper is in \<^verbatim>\<open>Group_2008_2009\<close>, where
  nothing is.
\<close>

theorem ghost_injection_policy_witness:
  "''category'' \<in> set (columns df_2010) \<and> ''position'' \<in> set (columns df_2010)
   \<and> gk_count df_2010 ''Group_2010_Plus'' = 1
   \<and> ghost_injection df_2010 = Inr ([GhostWarning], df_2010_ghost)
   \<and> length (rows df_2010_ghost) = length (rows df_2010) + 1
   \<and> map_of (last (to_dict_records df_2010_ghost)) ''position'' = Some (PStr ''GK'')
   \<and> map_of (last (to_dict_records df_2010_ghost)) ''category'' = Some (PStr ''Group_2010_Plus'')
   \<and> map_of (last (to_dict_records df_2010_ghost)) ''skill_score'' = Some (PInt 50)
   \<and> map_of (last (to_dict_records df_2010_ghost)) ''name'' = Some (PStr ''GHOST_GK_PLACEHOLDER'')
   \<and> ''category'' \<in> set (columns df_2008) \<and> ''position'' \<in> set (columns df_2008)
   \<and> gk_count df_2008 ''Group_2010_Plus'' \<noteq> 1
   \<and> ghost_injection df_2008 = Inr ([], df_2008)"
proof -
  have c10: "''category'' \<in> set (columns df_2010)" "''position'' \<in> set (columns df_2010)"
    by (simp_all add: df_2010_def)
  have c08: "''category'' \<in> set (columns df_2008)" "''position'' \<in> set (columns df_2008)"
    by (simp_all add: df_2008_def)
  from ghost_injection_policy[OF c10] gk_count_2010 inject_2010
  have "length (rows df_2010_ghost) = length (rows df_2010) + 1
   \<and> map_of (last (to_dict_records df_2010_ghost)) ''position'' = Some (PStr ''GK'')
   \<and> map_of (last (to_dict_records df_2010_ghost)) ''category'' = Some (PStr ''Group_2010_Plus'')
   \<and> map_of (last (to_dict_records df_2010_ghost)) ''skill_score'' = Some (PInt 50)
   \<and> map_of (last (to_dict_records df_2010_ghost)) ''name'' = Some (PStr ''GHOST_GK_PLACEHOLDER'')"
    by auto
  moreover from ghost_injection_policy[OF c08] gk_count_2008(2)
  have "ghost_injection df_2008 = Inr ([], df_2008)"
    by blast
  ultimately show ?thesis
    using c10 c08 gk_count_2010 gk_count_2008(2) inject_2010 by blast
qed

text \<open>
  C6 as stated fails: in the cohort of 2010 with one goalkeeper the placeholder is
  injected and comes back in the roster of team 2, as a record without any
  \<^verbatim>\<open>is_placeholder\<close> field.
\<close>

theorem placeholder_flag_counterexample:
  "ghost_injection df_2010 = Inr ([GhostWarning], df_2010_ghost)
   \<and> solve_cohort_v2 (check_solver v_2010) ''Group_2010_Plus''
        (cohort_data df_2010_ghost ''Group_2010_Plus'') = Inr (Some (rosters_2010, 10))
   \<and> map_of (rosters_2010 ! 1 ! 1) ''name'' = Some (PStr ''GHOST_GK_PLACEHOLDER'')
   \<and> map_of (rosters_2010 ! 1 ! 1) ''is_placeholder'' = None"
  by code_simp

text \<open>
  C6, amended. Whenever the placeholder is injected and \<^verbatim>\<open>solve_cohort_v2\<close> returns
  rosters for its cohort, the placeholder is in one of the two rosters, and that record
  carries the name \<^verbatim>\<open>GHOST_GK_PLACEHOLDER\<close> and the position GK; it carries no
  \<^verbatim>\<open>is_placeholder\<close> field that is true.
\<close>

theorem placeholder_in_output:
  assumes "solver_sound solver"
    and "ghost_injection df = Inr ([GhostWarning], df')"
    and "solve_cohort_v2 solver cohort_name (cohort_data df' ''Group_2010_Plus'')
           = Inr (Some (rosters, skill_diff))"
  shows "\<exists>t r. t < 2 \<and> r \<in> set (rosters ! t)
           \<and> map_of r ''name'' = Some (PStr ''GHOST_GK_PLACEHOLDER'')
           \<and> map_of r ''position'' = Some (PStr ''GK'')
           \<and> map_of r ''is_placeholder'' \<noteq> Some (PBool True)"
proof -
  from assms(2) have df': "df' = pd_concat_row df ghost"
    by (auto simp: ghost_injection_def split: if_splits)
  let ?players = "to_dict_records (cohort_data df' ''Group_2010_Plus'')"
  define p where "p = length ?players - 1"
  from assms(1,3) obtain positions cells skills val where
    pos: "getitems ?players ''position'' = Inr positions"
    and sat: "satisfies (make_model positions skills) val"
    and ros: "rosters = extract_rosters val cohort_name ?players"
    by (rule solve_cohort_v2_SomeD)
  have n: "length positions = length ?players"
    using getitems_Inr[OF pos] by simp
  have ne: "?players \<noteq> []" and la: "last ?players = last (to_dict_records df')"
    unfolding df' by (rule last_cohort_2010)+
  then have p: "p < length ?players" and at: "?players ! p = last (to_dict_records df')"
    by (simp_all add: p_def last_conv_nth)
  define r where "r = tag_player val cohort_name p (?players ! p)"
  from player_in_roster[OF sat n p, of cohort_name] obtain t where
    t: "t < 2" "r \<in> set (rosters ! t)"
    unfolding ros r_def by blast
  have g: "map_of (last (to_dict_records df')) ''name'' = Some (PStr ''GHOST_GK_PLACEHOLDER'')"
          "map_of (last (to_dict_records df')) ''position'' = Some (PStr ''GK'')"
          "map_of (last (to_dict_records df')) ''is_placeholder'' \<noteq> Some (PBool True)"
    unfolding df' by (rule ghost_record)+
  have same: "map_of r key = map_of (last (to_dict_records df')) key" if "key \<noteq> ''Assigned_Team''" for key
    unfolding r_def at by (rule map_of_tag_player[OF that])
  have "map_of r ''name'' = Some (PStr ''GHOST_GK_PLACEHOLDER'')"
       "map_of r ''position'' = Some (PStr ''GK'')"
       "map_of r ''is_placeholder'' \<noteq> Some (PBool True)"
    using g by (simp_all add: same)
  with t show ?thesis by blast
qed

text \<open>The same run: the placeholder is the second record of team 2.\<close>

theorem placeholder_in_output_witness:
  "solver_sound (check_solver v_2010)
   \<and> ghost_injection df_2010 = Inr ([GhostWarning], df_2010_ghost)
   \<and> solve_cohort_v2 (check_solver v_2010) ''Group_2010_Plus''
        (cohort_data df_2010_ghost ''Group_2010_Plus'') = Inr (Some (rosters_2010, 10))
   \<and> (1::nat) < 2
   \<and> rosters_2010 ! 1 ! 1 \<in> set (rosters_2010 ! 1)
   \<and> map_of (rosters_2010 ! 1 ! 1) ''name'' = Some (PStr ''GHOST_GK_PLACEHOLDER'')
   \<and> map_of (rosters_2010 ! 1 ! 1) ''position'' = Some (PStr ''GK'')
   \<and> map_of (rosters_2010 ! 1 ! 1) ''is_placeholder'' \<noteq> Some (PBool True)"
  using placeholder_in_output[OF check_solver_sound inject_2010 solve_2010]
    check_solver_sound inject_2010 solve_2010
  by (simp add: rosters_2010_def)

text \<open>
  C7 as stated fails: one player with skill score 100001. The sum of the skill scores
  exceeds the declared bound; the assignment of the player to team 0 meets every
  constraint with differential 100001, which the domain of \<^verbatim>\<open>diff\<close> excludes, so
  the cohort is reported as having no solution.
\<close>

theorem diff_bound_counterexample:
  "build_model (to_dict_records df_big) = Inr model_big
   \<and> map_of (variables model_big) Diff = Some (0, 100000)
   \<and> sum_list (cohort_skills df_big) = 100001
   \<and> list_all (in_domain v_big) (bool_vars 1)
   \<and> list_all (holds v_big) (constraints model_big)
   \<and> v_big Diff = 100001
   \<and> \<not> satisfies model_big v_big
   \<and> solve_cohort_v2 (check_solver v_big) ''G'' df_big = Inr None"
  by code_simp

text \<open>
  C7, amended. The objective variable is declared with the fixed domain
  \<open>[0, 100000]\<close>. For a cohort whose skill scores are non-negative and sum to at most
  100000 that domain excludes nothing: every valuation that respects the Boolean
  variables and the constraints is a solution of the whole model.
\<close>

theorem diff_domain_covers:
  assumes "build_model (to_dict_records df_cohort) = Inr m"
    and "\<forall>s\<in>set (cohort_skills df_cohort). 0 \<le> s"
    and "sum_list (cohort_skills df_cohort) \<le> 100000"
    and "list_all (in_domain val) (bool_vars (length (rows df_cohort)))"
    and "list_all (holds val) (constraints m)"
  shows "map_of (variables m) Diff = Some (0, 100000) \<and> satisfies m val"
proof -
  let ?players = "to_dict_records df_cohort"
  from assms(1) obtain positions cells skills where
    pos: "getitems ?players ''position'' = Inr positions"
    and cells: "getitems ?players ''skill_score'' = Inr cells"
    and skills: "skill_coeffs cells = Inr skills"
    and m: "m = make_model positions skills"
    by (rule build_model_Inr)
  have sk: "cohort_skills df_cohort = skills"
    unfolding cohort_skills_def by (rule skills_of_players[OF cells skills])
  have n: "length positions = length (rows df_cohort)" "length skills = length (rows df_cohort)"
    using getitems_Inr[OF pos] sk[symmetric] by (simp_all add: length_to_dict_records cohort_skills_def)
  have bools: "list_all (in_domain val) (bool_vars (length skills))"
    using assms(4) n by simp
  have "AbsEquality Diff (lin_minus (t_score skills 0) (t_score skills 1)) \<in> set (constraints m)"
    by (simp add: m make_model_def)
  with assms(5) have d: "val Diff = \<bar>eval_lin val (t_score skills 0) - eval_lin val (t_score skills 1)\<bar>"
    by (auto simp: list_all_iff eval_lin_minus)
  from t_score_bounds[OF bools, of 0] t_score_bounds[OF bools, of 1] assms(2,3)
  have "0 \<le> val Diff \<and> val Diff \<le> 100000"
    unfolding d sk by (simp add: num_teams_def) linarith
  then have "in_domain val diff_var"
    by (simp add: in_domain_def diff_var_def)
  with assms(4,5) have "satisfies m val"
    by (simp add: satisfies_def m make_model_def n)
  with diff_declared show ?thesis
    by (simp add: m)
qed

text \<open>The three-player cohort: scores 30, 50 and 25, and the split of them.\<close>

theorem diff_domain_covers_witness:
  "build_model (to_dict_records df3)
     = Inr (make_model [PStr ''GK'', PStr ''GK'', PStr ''DEF''] [30, 50, 25])
   \<and> cohort_skills df3 = [30, 50, 25]
   \<and> list_all (in_domain v3) (bool_vars (length (rows df3)))
   \<and> list_all (holds v3) (constraints (make_model [PStr ''GK'', PStr ''GK'', PStr ''DEF''] [30, 50, 25]))
   \<and> satisfies (make_model [PStr ''GK'', PStr ''GK'', PStr ''DEF''] [30, 50, 25]) v3"
proof -
  have a: "\<forall>s\<in>set (cohort_skills df3). 0 \<le> s" and b: "sum_list (cohort_skills df3) \<le> 100000"
    by (simp_all add: skills_df3)
  have c: "list_all (in_domain v3) (bool_vars (length (rows df3)))"
    using v3_bools by (simp add: rows_df3)
  from diff_domain_covers[OF build_df3 a b c v3_holds] build_df3 skills_df3 c v3_holds
  show ?thesis by simp
qed

text \<open>
  C8 as stated fails: for the one-player cohort, a solver that reports INFEASIBLE and a
  solver that reports MODEL_INVALID lead to the same return value, \<^verbatim>\<open>(None, None)\<close>;
  nothing in it tells the two apart.
\<close>

theorem no_solution_signal_counterexample:
  "solve_cohort_v2 infeasible_solver ''G'' df1 = Inr None
   \<and> solve_cohort_v2 invalid_solver ''G'' df1 = Inr None
   \<and> solve_cohort_v2 infeasible_solver ''G'' df1 = solve_cohort_v2 invalid_solver ''G'' df1"
  by (simp add: solve_cohort_v2_def Let_def build_df1 infeasible_solver_def invalid_solver_def)

text \<open>
  C8, amended. Whenever the solver reports a status other than OPTIMAL or FEASIBLE,
  \<^verbatim>\<open>solve_cohort_v2\<close> returns \<^verbatim>\<open>(None, None)\<close>: no assignment, and the same value
  for every such status.
\<close>

theorem no_solution_returns_none:
  assumes "build_model (to_dict_records df_cohort) = Inr m"
    and "fst (solver m) \<noteq> OPTIMAL" and "fst (solver m) \<noteq> FEASIBLE"
  shows "solve_cohort_v2 solver cohort_name df_cohort = Inr None"
  using assms by (simp add: solve_cohort_v2_def Let_def)

text \<open>
  The one-player cohort with the solver that reports INFEASIBLE.
\<close>

theorem no_solution_returns_none_witness:
  "build_model (to_dict_records df1) = Inr (make_model [PStr ''MID''] [40])
   \<and> fst (infeasible_solver (make_model [PStr ''MID''] [40])) \<noteq> OPTIMAL
   \<and> fst (infeasible_solver (make_model [PStr ''MID''] [40])) \<noteq> FEASIBLE
   \<and> solve_cohort_v2 infeasible_solver ''G'' df1 = Inr None"
proof -
  have a: "fst (infeasible_solver (make_model [PStr ''MID''] [40])) \<noteq> OPTIMAL"
    and b: "fst (infeasible_solver (make_model [PStr ''MID''] [40])) \<noteq> FEASIBLE"
    by (simp_all add: infeasible_solver_def)
  from no_solution_returns_none[where solver = infeasible_solver and cohort_name = "''G''", OF build_df1 a b]
    build_df1 a b show ?thesis by simp
qed

text \<open>
  C9 (a cohort without solution does not stop the others). Let cohort \<open>f\<close> be one of
  several cohorts of the frame, and let \<^verbatim>\<open>solve_cohort_v2\<close> return \<^verbatim>\<open>(None, None)\<close>
  for it. Then the run on the frame without the rows of \<open>f\<close> ends as the run on the
  whole frame does, with the same final roster and the same messages for the other
  cohorts; every other cohort is solved on the same data in both runs; and when no
  cohort raises an exception the run goes through all cohorts, with one message for
  each, the one for \<open>f\<close> being that it has no solution.
\<close>

theorem cohort_failure_isolated:
  assumes "cohort_names df = Inr cohorts"
    and "f \<in> set cohorts"
    and "filter (\<lambda>c. c \<noteq> f) cohorts \<noteq> []"
    and "solve_cohort_v2 solver f (cohort_data df f) = Inr None"
  shows "optimize_teams solver (without_cohort df f)
           = (case optimize_teams solver df of
                Inl e \<Rightarrow> Inl e
              | Inr s \<Rightarrow> Inr (fst s, messages_without f (snd s)))
       \<and> (\<forall>c\<in>set cohorts. c \<noteq> f \<longrightarrow>
             solve_cohort_v2 solver c (cohort_data (without_cohort df f) c)
               = solve_cohort_v2 solver c (cohort_data df c))
       \<and> ((\<forall>c\<in>set cohorts. \<exists>res. solve_cohort_v2 solver c (cohort_data df c) = Inr res) \<longrightarrow>
             (\<exists>final_roster.
                optimize_teams solver df
                  = Inr (final_roster, map (\<lambda>c. (c, cohort_message solver df c)) cohorts))
             \<and> cohort_message solver df f = NoFeasibleSolution)"
proof (intro conjI ballI impI)
  have "optimize_teams solver (without_cohort df f)
          = cohort_loop solver (without_cohort df f) (filter (\<lambda>c. c \<noteq> f) cohorts) ([], messages_without f [])"
    using assms(3) by (simp add: optimize_teams_def cohort_names_without[OF assms(1)] messages_without_def)
  also have "\<dots> = (case cohort_loop solver df cohorts ([], []) of
                      Inl e \<Rightarrow> Inl e
                    | Inr s \<Rightarrow> Inr (fst s, messages_without f (snd s)))"
    by (rule cohort_loop_without[OF assms(4)])
  finally show "optimize_teams solver (without_cohort df f)
           = (case optimize_teams solver df of
                Inl e \<Rightarrow> Inl e
              | Inr s \<Rightarrow> Inr (fst s, messages_without f (snd s)))"
    by (simp add: optimize_teams_def assms(1))
next
  fix c assume "c \<in> set cohorts" "c \<noteq> f"
  then show "solve_cohort_v2 solver c (cohort_data (without_cohort df f) c)
               = solve_cohort_v2 solver c (cohort_data df c)"
    by (simp add: cohort_data_without)
next
  assume "\<forall>c\<in>set cohorts. \<exists>res. solve_cohort_v2 solver c (cohort_data df c) = Inr res"
  from cohort_loop_messages[OF this, of "[]" "[]"]
  show "\<exists>final_roster.
                optimize_teams solver df
                  = Inr (final_roster, map (\<lambda>c. (c, cohort_message solver df c)) cohorts)"
    by (simp add: optimize_teams_def assms(1))
next
  show "cohort_message solver df f = NoFeasibleSolution"
    by (simp add: cohort_message_def assms(4))
qed

text \<open>
  The frame of two cohorts: the run shows that \<^verbatim>\<open>Group_2008_2009\<close> has no solution
  and goes on to solve \<^verbatim>\<open>Group_2010_Plus\<close>; without the rows of the first cohort the
  second has the same roster and the same message.
\<close>

theorem cohort_failure_isolated_witness:
  "cohort_names df_two = Inr [''Group_2008_2009'', ''Group_2010_Plus'']
   \<and> ''Group_2008_2009'' \<in> set [''Group_2008_2009'', ''Group_2010_Plus'']
   \<and> filter (\<lambda>c. c \<noteq> ''Group_2008_2009'') [''Group_2008_2009'', ''Group_2010_Plus''] \<noteq> []
   \<and> solve_cohort_v2 (check_solver v1) ''Group_2008_2009'' (cohort_data df_two ''Group_2008_2009'') = Inr None
   \<and> ''Group_2010_Plus'' \<noteq> ''Group_2008_2009''
   \<and> solve_cohort_v2 (check_solver v1) ''Group_2010_Plus''
        (cohort_data (without_cohort df_two ''Group_2008_2009'') ''Group_2010_Plus'')
        = Inr (Some ([roster_two, []], 40))
   \<and> optimize_teams (check_solver v1) df_two
        = Inr (roster_two, [(''Group_2008_2009'', NoFeasibleSolution), (''Group_2010_Plus'', Optimized 40)])
   \<and> optimize_teams (check_solver v1) (without_cohort df_two ''Group_2008_2009'')
        = Inr (roster_two, [(''Group_2010_Plus'', Optimized 40)])"
proof -
  have mem: "''Group_2008_2009'' \<in> set [''Group_2008_2009'', ''Group_2010_Plus'']"
    and other: "filter (\<lambda>c. c \<noteq> ''Group_2008_2009'') [''Group_2008_2009'', ''Group_2010_Plus''] \<noteq> []"
    and ne: "''Group_2010_Plus'' \<noteq> ''Group_2008_2009''"
    by simp_all
  note iso = cohort_failure_isolated[OF names_two mem other solve_two_2008]
  from iso have "optimize_teams (check_solver v1) (without_cohort df_two ''Group_2008_2009'')
        = Inr (roster_two, [(''Group_2010_Plus'', Optimized 40)])"
    by (simp add: run_two messages_without_def)
  moreover from iso ne
  have "solve_cohort_v2 (check_solver v1) ''Group_2010_Plus''
          (cohort_data (without_cohort df_two ''Group_2008_2009'') ''Group_2010_Plus'')
        = Inr (Some ([roster_two, []], 40))"
    by (simp add: solve_two_2010)
  ultimately show ?thesis
    using names_two mem other solve_two_2008 ne run_two by blast
qed

text \<open>
  C10 (cohort of one player). When \<^verbatim>\<open>solve_cohort_v2\<close> returns for a cohort of one
  player, it returns either no assignment or two rosters of sizes 1 and 0 in some
  order, which are \<open>1 div 2\<close> and \<open>(1 + 1) div 2\<close>.
\<close>

theorem single_player_cohort:
  assumes "solver_sound solver"
    and "length (rows df_cohort) = 1"
    and "solve_cohort_v2 solver cohort_name df_cohort = Inr result"
  shows "result = None
       \<or> (\<exists>rosters skill_diff. result = Some (rosters, skill_diff) \<and> length rosters = 2
            \<and> ((length (rosters ! 0) = 1 \<and> length (rosters ! 1) = 0)
               \<or> (length (rosters ! 0) = 0 \<and> length (rosters ! 1) = 1)))"
proof (cases result)
  case None
  then show ?thesis by simp
next
  case (Some res)
  obtain rosters skill_diff where res: "res = (rosters, skill_diff)"
    by (cases res)
  let ?players = "to_dict_records df_cohort"
  from assms(1) assms(3)[unfolded Some res] obtain positions cells skills val where
    pos: "getitems ?players ''position'' = Inr positions"
    and sat: "satisfies (make_model positions skills) val"
    and ros: "rosters = extract_rosters val cohort_name ?players"
    by (rule solve_cohort_v2_SomeD)
  have n: "length positions = 1" "length ?players = 1"
    using getitems_Inr[OF pos] assms(2) by (simp_all add: length_to_dict_records)
  have two: "length rosters = 2"
    and l0: "length (rosters ! 0) = length (assigned val 0 [0..<1])"
    and l1: "length (rosters ! 1) = length (assigned val 1 [0..<1])"
    by (simp_all add: ros extract_rosters_eq n)
  from team_sizes(1)[OF sat]
  have "length (assigned val 0 [0..<1]) + length (assigned val 1 [0..<1]) = 1"
    unfolding n(1) .
  with l0 l1 have "(length (rosters ! 0) = 1 \<and> length (rosters ! 1) = 0)
                 \<or> (length (rosters ! 0) = 0 \<and> length (rosters ! 1) = 1)"
    by linarith
  with two show ?thesis
    unfolding Some res by blast
qed

text \<open>
  The one-player cohort: the player is in team 0 and team 1 is empty.
\<close>

theorem single_player_cohort_witness:
  "solver_sound (check_solver v1)
   \<and> length (rows df1) = 1
   \<and> solve_cohort_v2 (check_solver v1) ''G'' df1 = Inr (Some (rosters1, 40))
   \<and> length (rosters1 ! 0) = 1 \<and> length (rosters1 ! 1) = 0"
  using single_player_cohort[OF check_solver_sound rows_df1 solve_df1] check_solver_sound rows_df1 solve_df1
  by (simp add: rosters1_def)

end
